theory Spec2Isabelle
  imports Main "HOL-Library.AList" "HOL-Library.Word"
begin

section \<open>The build-bot dispatcher \<open>bb_run_bot.py\<close>\<close>

text \<open>
  The script resolves a bot identifier to a static configuration, formats the
  configuration into at most two shell commands and runs them in sequence. The
  embedding follows the three functions of the file: \<open>GetCommands\<close>,
  \<open>GetBotStepMap\<close> and \<open>main\<close>.
\<close>

subsection \<open>Python values\<close>

text \<open>
  The exceptions the script can end with. \<open>UsageError\<close> is \<open>parser.error\<close> of
  \<open>optparse\<close> (usage text, \<open>SystemExit\<close> with status 2); the others are Python
  exceptions that nothing in the script catches.
\<close>

datatype usage = UnusedArgs "string list" | NoBotId

datatype py_error =
    UsageError usage
  | ValueError
  | AttributeError
  | TypeError
  | KeyError string
  | AssertionError
  | OSError

text \<open>
  What \<open>json.loads\<close> returns. A Python float is a C double, kept here as its 64 bits.
  A JSON object is a Python dict, kept as an association list read with \<open>map_of\<close>.
\<close>

datatype json =
    JNull
  | JBool bool
  | JInt int
  | JFloat "64 word"
  | JStr string
  | JArr "json list"
  | JObj "(string \<times> json) list"

text \<open>Python truthiness, as \<open>if x\<close> and \<open>x or y\<close> test it.\<close>

fun truthy :: "json \<Rightarrow> bool" where
  "truthy JNull = False"
| "truthy (JBool b) = b"
| "truthy (JInt n) = (n \<noteq> 0)"
| "truthy (JFloat w) = (push_bit 1 w \<noteq> 0)"
| "truthy (JStr s) = (s \<noteq> [])"
| "truthy (JArr xs) = (xs \<noteq> [])"
| "truthy (JObj kvs) = (kvs \<noteq> [])"

text \<open>\<open>sep.join(xs)\<close>\<close>

fun str_join :: "string \<Rightarrow> string list \<Rightarrow> string" where
  "str_join sep [] = []"
| "str_join sep [x] = x"
| "str_join sep (x # y # ys) = x @ sep @ str_join sep (y # ys)"

text \<open>\<open>s.startswith(p)\<close>\<close>

definition startswith :: "string \<Rightarrow> string \<Rightarrow> bool" where
  "startswith s p = (take (length p) s = p)"

text \<open>\<open>x in s\<close> for two strings: \<open>x\<close> occurs in \<open>s\<close> as a contiguous substring.\<close>

fun str_contains :: "string \<Rightarrow> string \<Rightarrow> bool" where
  "str_contains x [] = (x = [])"
| "str_contains x (c # s) = (take (length x) (c # s) = x \<or> str_contains x s)"

text \<open>
  \<open>max(xs, key=len)\<close> on a non-empty list: the first element of greatest length, since
  a later element replaces the current one only when it is strictly longer.
\<close>

fun max_by_len_from :: "string \<Rightarrow> string list \<Rightarrow> string" where
  "max_by_len_from m [] = m"
| "max_by_len_from m (x # xs) =
     (if length m < length x then max_by_len_from x xs else max_by_len_from m xs)"

definition max_by_len :: "string list \<Rightarrow> string" where
  "max_by_len xs = max_by_len_from (hd xs) (tl xs)"

subsection \<open>The store of list objects\<close>

text \<open>
  \<open>GetBotStepMap\<close> shares list objects between configurations (\<open>std_tests\<close>,
  \<open>compile_opt\<close>, ...) and later removes an element from a list in place, so
  lists of strings live in a store and the configurations hold their addresses. A
  new list takes the next free address.
\<close>

type_synonym ref = nat
type_synonym heap = "string list list"

definition new_list :: "string list \<Rightarrow> heap \<Rightarrow> ref \<times> heap" where
  "new_list xs h = (length h, h @ [xs])"

text \<open>\<open>a + b\<close> on two list objects builds a new list.\<close>

definition list_add :: "ref \<Rightarrow> ref \<Rightarrow> heap \<Rightarrow> ref \<times> heap" where
  "list_add a b h = new_list (h ! a @ h ! b) h"

subsection \<open>The named tuples\<close>

record TestConfig =
  tests :: ref
  extra_args :: "ref option"

record BotConfig =
  bot_id :: string
  host_opts :: ref
  test_obj :: "TestConfig option"
  slave_props :: "(string \<times> string) list option"

record Command =
  step_name :: "string option"
  command :: "string list"
  testing_cmd :: "string list option"

text \<open>The helpers \<open>B\<close> and \<open>T\<close> of \<open>GetBotStepMap\<close>.\<close>

definition B :: "string \<Rightarrow> ref \<Rightarrow> TestConfig option \<Rightarrow> (string \<times> string) list option \<Rightarrow> BotConfig" where
  "B bid bash_funs tobj sprops =
     \<lparr>bot_id = bid, host_opts = bash_funs, test_obj = tobj, slave_props = sprops\<rparr>"

definition T :: "ref \<Rightarrow> ref option \<Rightarrow> TestConfig" where
  "T ts eargs = \<lparr>tests = ts, extra_args = eargs\<rparr>"

text \<open>A dict from bot ids to configurations: an association list with distinct keys.\<close>

type_synonym bot_map = "(string \<times> BotConfig) list"

subsection \<open>\<open>GetBotStepMap\<close>\<close>

definition flakiness_server :: string where
  "flakiness_server = ''--upload-to-flakiness-server''"

definition extra_gyp :: string where
  "extra_gyp = ''extra_gyp_defines''"

text \<open>
  The list \<open>bot_configs\<close>, lines 87 to 132. Every list display and every \<open>+\<close>
  allocates, in Python's evaluation order.
\<close>

definition bot_configs :: "heap \<Rightarrow> BotConfig list \<times> heap" where
  "bot_configs h0 =
    (let (compile_opt, h) = new_list [''--compile''] h0;
         (std_host_tests, h) = new_list [''--host-tests=check_webview_licenses,findbugs''] h;
         (std_build_opts, h) = new_list [''--compile'', ''--zip-build''] h;
         (std_test_opts, h) = new_list [''--extract-build''] h;
         (std_tests, h) = new_list [''ui'', ''unit''] h;
         (o1, h) = list_add std_build_opts std_host_tests h;
         c1 = B ''main-builder-dbg'' o1 None None;
         c2 = B ''main-builder-rel'' std_build_opts None None;
         c3 = B ''main-clang-builder'' compile_opt None (Some [(extra_gyp, ''clang=1'')]);
         c4 = B ''main-clobber'' compile_opt None None;
         (e5, h) = new_list [flakiness_server] h;
         c5 = B ''main-tests'' std_test_opts (Some (T std_tests (Some e5))) None;
         (l6, h) = new_list [''--update-clang''] h;
         (o6, h) = list_add compile_opt l6 h;
         (e6, h) = new_list [''--asan''] h;
         c6 = B ''asan-builder-tests'' o6 (Some (T std_tests (Some e6)))
                (Some [(extra_gyp, ''asan=1'')]);
         (t7, h) = new_list [''chromedriver''] h;
         (e7, h) = new_list [''--install=ChromiumTestShell''] h;
         c7 = B ''chromedriver-fyi-tests-dbg'' std_test_opts (Some (T t7 (Some e7))) None;
         (o8a, h) = list_add std_build_opts std_host_tests h;
         (l8, h) = new_list [''--experimental''] h;
         (o8, h) = list_add o8a l8 h;
         c8 = B ''fyi-builder-dbg'' o8 None None;
         (l9, h) = new_list [''--experimental''] h;
         (o9, h) = list_add std_build_opts l9 h;
         c9 = B ''fyi-builder-rel'' o9 None None;
         (l10, h) = new_list [''--experimental''] h;
         (o10, h) = list_add compile_opt l10 h;
         (e10, h) = new_list [''--experimental'', flakiness_server] h;
         c10 = B ''fyi-tests-dbg-ics-gn'' o10 (Some (T std_tests (Some e10))) None;
         (e11, h) = new_list [''--experimental'', flakiness_server] h;
         c11 = B ''fyi-tests'' std_test_opts (Some (T std_tests (Some e11))) None;
         (e12, h) = new_list [''--experimental'', flakiness_server] h;
         c12 = B ''fyi-component-builder-tests-dbg'' compile_opt
                 (Some (T std_tests (Some e12))) (Some [(extra_gyp, ''component=shared_library'')]);
         (t13, h) = new_list [] h;
         (e13, h) = new_list [''--install=ContentShell''] h;
         c13 = B ''perf-tests-rel'' std_test_opts (Some (T t13 (Some e13))) None;
         (t14, h) = new_list [''webkit_layout'', ''webkit''] h;
         c14 = B ''webkit-latest-webkit-tests'' std_test_opts (Some (T t14 None)) None;
         (t15, h) = new_list [''webkit_layout''] h;
         c15 = B ''webkit-latest-contentshell'' compile_opt (Some (T t15 None)) None;
         (t16, h) = new_list [''unit''] h;
         c16 = B ''builder-unit-tests'' compile_opt (Some (T t16 None)) None;
         c17 = B ''builder'' std_build_opts None None
     in ([c1, c2, c3, c4, c5, c6, c7, c8, c9, c10, c11, c12, c13, c14, c15, c16, c17], h))"

text \<open>The list \<open>copy_map\<close>, lines 137 to 146: pairs \<open>(to_id, from_id)\<close>.\<close>

definition copy_map :: "(string \<times> string) list" where
  "copy_map =
    [(''lkgr-clobber'', ''main-clobber''),
     (''try-builder-dbg'', ''main-builder-dbg''),
     (''try-builder-rel'', ''main-builder-rel''),
     (''try-clang-builder'', ''main-clang-builder''),
     (''try-fyi-builder-dbg'', ''fyi-builder-dbg''),
     (''try-tests'', ''main-tests''),
     (''try-fyi-tests'', ''fyi-tests''),
     (''webkit-latest-tests'', ''main-tests'')]"

text \<open>
  \<open>dict((config.bot_id, config) for config in bot_configs)\<close>: entries are stored one
  after the other, and storing under a key that is present replaces its value.
\<close>

definition dict_of_configs :: "BotConfig list \<Rightarrow> bot_map" where
  "dict_of_configs cfgs = foldl (\<lambda>m c. AList.update (bot_id c) c m) [] cfgs"

text \<open>
  \<open>copy.deepcopy\<close> of a \<open>BotConfig\<close>. Fields are copied in order; the memo of
  \<open>deepcopy\<close> makes a list object that is reached twice be copied once. Strings are
  immutable and the property dict is never written to, so both are kept as values.
\<close>

definition deepcopy_list :: "(ref \<times> ref) list \<Rightarrow> ref \<Rightarrow> heap \<Rightarrow> ref \<times> (ref \<times> ref) list \<times> heap" where
  "deepcopy_list memo a h =
     (case map_of memo a of
        Some a' \<Rightarrow> (a', memo, h)
      | None \<Rightarrow> (let (a', h') = new_list (h ! a) h in (a', (a, a') # memo, h')))"

definition deepcopy :: "BotConfig \<Rightarrow> heap \<Rightarrow> BotConfig \<times> heap" where
  "deepcopy c h =
     (let (ho, memo, h) = deepcopy_list [] (host_opts c) h in
      case test_obj c of
        None \<Rightarrow> (c\<lparr>host_opts := ho\<rparr>, h)
      | Some t \<Rightarrow>
          (let (ts, memo, h) = deepcopy_list memo (tests t) h in
           case extra_args t of
             None \<Rightarrow> (c\<lparr>host_opts := ho, test_obj := Some (t\<lparr>tests := ts\<rparr>)\<rparr>, h)
           | Some ea \<Rightarrow>
               (let (ea', memo, h) = deepcopy_list memo ea h in
                (c\<lparr>host_opts := ho,
                   test_obj := Some (t\<lparr>tests := ts, extra_args := Some ea'\<rparr>)\<rparr>, h))))"

text \<open>
  The body of the loop over \<open>copy_map\<close>, lines 148 to 158, and the loop. The
  \<open>assert\<close> and the subscript \<open>bot_map[from_id]\<close> are the two places that raise.
  \<open>extra_args.remove(x)\<close> deletes the first occurrence of \<open>x\<close> from the list object.
\<close>

definition copy_step :: "string \<Rightarrow> string \<Rightarrow> bot_map \<Rightarrow> heap \<Rightarrow> py_error + (bot_map \<times> heap)" where
  "copy_step to_id from_id bm h =
     (if to_id \<in> set (map fst bm) then Inl AssertionError
      else case map_of bm from_id of
        None \<Rightarrow> Inl (KeyError from_id)
      | Some src \<Rightarrow>
          (let (cp, h) = deepcopy src h;
               cfg = cp\<lparr>bot_id := to_id\<rparr>;
               bm = AList.update to_id cfg bm
           in case test_obj cfg of
                None \<Rightarrow> Inr (bm, h)
              | Some tobj \<Rightarrow>
                  if startswith to_id ''try'' then
                    (case extra_args tobj of
                       None \<Rightarrow> Inr (bm, h)
                     | Some ea \<Rightarrow>
                         if h ! ea \<noteq> [] \<and> flakiness_server \<in> set (h ! ea)
                         then Inr (bm, h[ea := remove1 flakiness_server (h ! ea)])
                         else Inr (bm, h))
                  else Inr (bm, h)))"

fun apply_copy_map :: "(string \<times> string) list \<Rightarrow> bot_map \<Rightarrow> heap \<Rightarrow> py_error + (bot_map \<times> heap)" where
  "apply_copy_map [] bm h = Inr (bm, h)"
| "apply_copy_map ((to_id, from_id) # rest) bm h =
     (case copy_step to_id from_id bm h of
        Inl e \<Rightarrow> Inl e
      | Inr (bm', h') \<Rightarrow> apply_copy_map rest bm' h')"

text \<open>
  Lines 134 to 159 for any list of primary configurations and any alias list; the
  function of the script is this one at its two tables.
\<close>

definition build_bot_map :: "BotConfig list \<Rightarrow> (string \<times> string) list \<Rightarrow> heap \<Rightarrow> py_error + (bot_map \<times> heap)" where
  "build_bot_map cfgs cmap h = apply_copy_map cmap (dict_of_configs cfgs) h"

definition GetBotStepMap :: "heap \<Rightarrow> py_error + (bot_map \<times> heap)" where
  "GetBotStepMap h0 = (let (cfgs, h) = bot_configs h0 in build_bot_map cfgs copy_map h)"

text \<open>
  What a configuration looks like to a reader who follows its references: the
  contents of its lists instead of their addresses.
\<close>

record TestView =
  tests_v :: "string list"
  extra_args_v :: "string list option"

record BotView =
  bot_id_v :: string
  host_opts_v :: "string list"
  test_obj_v :: "TestView option"
  slave_props_v :: "(string \<times> string) list option"

definition view_test :: "heap \<Rightarrow> TestConfig \<Rightarrow> TestView" where
  "view_test h t = \<lparr>tests_v = h ! tests t, extra_args_v = map_option (\<lambda>a. h ! a) (extra_args t)\<rparr>"

definition view_bot :: "heap \<Rightarrow> BotConfig \<Rightarrow> BotView" where
  "view_bot h c =
     \<lparr>bot_id_v = bot_id c, host_opts_v = h ! host_opts c,
      test_obj_v = map_option (view_test h) (test_obj c), slave_props_v = slave_props c\<rparr>"

definition view_map :: "heap \<Rightarrow> bot_map \<Rightarrow> (string \<times> BotView) list" where
  "view_map h bm = map (\<lambda>(k, c). (k, view_bot h c)) bm"

subsection \<open>What the script takes from outside its file\<close>

text \<open>
  The library functions \<open>json.loads\<close> (\<open>None\<close> where it raises \<open>ValueError\<close>),
  \<open>json.dumps\<close> and \<open>pipes.quote\<close>, the function \<open>CommandToString\<close> of
  \<open>bb_utils\<close>, the path \<open>CHROME_SRC\<close> computed from the place of the file, and
  the order in which a Python 2 dict hands out its keys, which is the hash order and
  not the order of insertion. All are parameters of the model.
\<close>

record env =
  json_loads :: "string \<Rightarrow> json option"
  json_dumps :: "json \<Rightarrow> string"
  pipes_quote :: "string \<Rightarrow> string"
  CommandToString :: "string list \<Rightarrow> string"
  CHROME_SRC :: string
  iterkeys :: "string list \<Rightarrow> string list"

text \<open>
  \<open>subprocess.call\<close> with the argument vector and whether \<open>BUILDBOT_TESTING=1\<close>
  is added to the environment. It acts on the world outside, and gives the child's
  return code or raises \<open>OSError\<close>.
\<close>

type_synonym 'w subprocess = "string list \<Rightarrow> bool \<Rightarrow> 'w \<Rightarrow> (py_error + int) \<times> 'w"

text \<open>What the script writes and starts, in order.\<close>

datatype event =
    PrintSubstringMatch string
  | PrintCannotInfer json
  | PrintUsingConfig BotView
  | PrintWillRun string
  | NamedStep string
  | PrintCommand string
  | Flush
  | Call "string list" bool "py_error + int"

subsection \<open>\<open>GetCommands\<close>\<close>

record options =
  build_properties :: json
  factory_properties :: json
  opt_bot_id :: "string option"
  TESTING :: bool

definition GLOBAL_SLAVE_PROPS :: "(string \<times> string) list" where
  "GLOBAL_SLAVE_PROPS = []"

text \<open>\<open>d.update(other)\<close> on a fresh copy \<open>d\<close>.\<close>

definition dict_update :: "(string \<times> string) list \<Rightarrow> (string \<times> string) list \<Rightarrow> (string \<times> string) list" where
  "dict_update d other = foldl (\<lambda>m (k, v). AList.update k v m) d other"

definition WrapWithBash :: "env \<Rightarrow> string \<Rightarrow> string \<Rightarrow> string list" where
  "WrapWithBash env slave_properties cmd =
     [''bash'', ''-exc'', str_join ''; ''
        [''. build/android/buildbot/buildbot_functions.sh'',
         ''bb_baseline_setup '' @ CHROME_SRC env @ '' --slave-properties=''
           @ pipes_quote env slave_properties,
         cmd]]"

definition GetCommands :: "env \<Rightarrow> options \<Rightarrow> BotConfig \<Rightarrow> heap \<Rightarrow> Command list" where
  "GetCommands env opts bot_config h =
    (let sprops = GLOBAL_SLAVE_PROPS;
         sprops = (case slave_props bot_config of
                     None \<Rightarrow> sprops
                   | Some d \<Rightarrow> if d \<noteq> [] then dict_update sprops d else sprops);
         slave_properties = json_dumps env (JObj (map (\<lambda>(k, v). (k, JStr v)) sprops));
         property_args =
           [''--factory-properties='' @ json_dumps env (factory_properties opts),
            ''--build-properties='' @ json_dumps env (build_properties opts),
            ''--slave-properties='' @ slave_properties];
         commands = [];
         commands =
           (if h ! host_opts bot_config \<noteq> [] then
              (let host_cmd = [''build/android/buildbot/bb_host_steps.py'']
                                @ h ! host_opts bot_config @ property_args
               in commands @
                    [\<lparr>step_name = Some ''Host steps'',
                      command = WrapWithBash env slave_properties
                                  (str_join '' '' (map (pipes_quote env) host_cmd)),
                      testing_cmd = Some host_cmd\<rparr>])
            else commands)
     in case test_obj bot_config of
          None \<Rightarrow> commands
        | Some tobj \<Rightarrow>
            (let run_test_cmd = [''build/android/buildbot/bb_device_steps.py'', ''--reboot'']
                                  @ property_args;
                 run_test_cmd = foldl (\<lambda>cmd test. cmd @ [''-f'', test]) run_test_cmd
                                  (h ! tests tobj);
                 run_test_cmd = (case extra_args tobj of
                                   None \<Rightarrow> run_test_cmd
                                 | Some ea \<Rightarrow> if h ! ea \<noteq> [] then run_test_cmd @ h ! ea
                                              else run_test_cmd)
             in commands @
                  [\<lparr>step_name = Some ''Run tests'',
                    command = WrapWithBash env slave_properties
                                (str_join '' '' (map (pipes_quote env) run_test_cmd)),
                    testing_cmd = Some run_test_cmd\<rparr>]))"

subsection \<open>\<open>main\<close>\<close>

text \<open>
  The command line after \<open>optparse\<close> has split it: the occurrences of the four
  options with their values, and the positional arguments, left to right.
\<close>

datatype cli_arg =
    BuildProperties string
  | FactoryProperties string
  | BotIdArg string
  | TestingFlag
  | Positional string

definition default_options :: options where
  "default_options =
     \<lparr>build_properties = JObj [], factory_properties = JObj [],
      opt_bot_id = None, TESTING = False\<rparr>"

text \<open>
  \<open>parser.parse_args\<close>. The callback \<open>ConvertJson\<close> stores \<open>json.loads(value)\<close>;
  \<open>optparse\<close> turns into \<open>parser.error\<close> only the \<open>OptionValueError\<close> and
  \<open>BadOptionError\<close> of its own, so the \<open>ValueError\<close> of \<open>json.loads\<close> leaves
  \<open>parse_args\<close> as it is.
\<close>

fun parse_args :: "env \<Rightarrow> cli_arg list \<Rightarrow> options \<Rightarrow> string list \<Rightarrow> py_error + (options \<times> string list)" where
  "parse_args env [] opts args = Inr (opts, args)"
| "parse_args env (BuildProperties v # rest) opts args =
     (case json_loads env v of
        None \<Rightarrow> Inl ValueError
      | Some j \<Rightarrow> parse_args env rest (opts\<lparr>build_properties := j\<rparr>) args)"
| "parse_args env (FactoryProperties v # rest) opts args =
     (case json_loads env v of
        None \<Rightarrow> Inl ValueError
      | Some j \<Rightarrow> parse_args env rest (opts\<lparr>factory_properties := j\<rparr>) args)"
| "parse_args env (BotIdArg v # rest) opts args =
     parse_args env rest (opts\<lparr>opt_bot_id := Some v\<rparr>) args"
| "parse_args env (TestingFlag # rest) opts args =
     parse_args env rest (opts\<lparr>TESTING := True\<rparr>) args"
| "parse_args env (Positional v # rest) opts args =
     parse_args env rest opts (args @ [v])"

text \<open>
  Line 181, \<open>options.bot_id or options.factory_properties.get('android_bot_id')\<close>.
  The right operand is evaluated only when the left one is falsy, and \<open>.get\<close>
  exists on a dict only.
\<close>

definition get_bot_id :: "options \<Rightarrow> py_error + json" where
  "get_bot_id opts =
     (let flag = (case opt_bot_id opts of None \<Rightarrow> JNull | Some s \<Rightarrow> JStr s) in
      if truthy flag then Inr flag
      else case factory_properties opts of
             JObj kvs \<Rightarrow> Inr (case map_of kvs ''android_bot_id'' of None \<Rightarrow> JNull | Some v \<Rightarrow> v)
           | _ \<Rightarrow> Inl AttributeError)"

text \<open>
  Lines 190 to 196. A list or a dict is unhashable, so \<open>bot_map.get\<close> raises on
  it; on any other value that is not a string \<open>x in bot_id\<close> raises at the first
  key. A \<open>BotConfig\<close> is a tuple of four fields and therefore truthy.
\<close>

definition resolve :: "env \<Rightarrow> bot_map \<Rightarrow> json \<Rightarrow> py_error + (BotConfig option \<times> event list)" where
  "resolve env bm bid =
     (case bid of
        JArr _ \<Rightarrow> Inl TypeError
      | JObj _ \<Rightarrow> Inl TypeError
      | JStr s \<Rightarrow>
          (case map_of bm s of
             Some c \<Rightarrow> Inr (Some c, [])
           | None \<Rightarrow>
               (let substring_matches = filter (\<lambda>x. str_contains x s) (iterkeys env (map fst bm))
                in if substring_matches \<noteq> [] then
                     (let max_id = max_by_len substring_matches in
                      case map_of bm max_id of
                        None \<Rightarrow> Inl (KeyError max_id)
                      | Some c \<Rightarrow> Inr (Some c, [PrintSubstringMatch max_id]))
                   else Inr (None, [])))
      | _ \<Rightarrow> if iterkeys env (map fst bm) = [] then Inr (None, []) else Inl TypeError)"

text \<open>
  Lines 208 to 212: what the loop writes before it starts a command. The step
  marker of \<open>buildbot_report.PrintNamedStep\<close> is written when the step name is
  truthy.
\<close>

definition step_out :: "env \<Rightarrow> Command \<Rightarrow> event list" where
  "step_out env c =
     (case step_name c of
        None \<Rightarrow> []
      | Some s \<Rightarrow> if s \<noteq> [] then [NamedStep s] else [])
     @ [PrintCommand (CommandToString env (command c)), Flush]"

text \<open>The loop of lines 207 to 224; \<open>None\<close> is falling off the end of \<open>main\<close>.\<close>

fun run_commands :: "env \<Rightarrow> 'w subprocess \<Rightarrow> bool \<Rightarrow> Command list \<Rightarrow> 'w \<Rightarrow> (py_error + int option) \<times> event list \<times> 'w" where
  "run_commands env call testing [] w = (Inr None, [], w)"
| "run_commands env call testing (c # cs) w =
    (let out = step_out env c;
         skip = (testing \<and> (case testing_cmd c of None \<Rightarrow> True | Some tc \<Rightarrow> tc = []))
     in if skip then
          (case run_commands env call testing cs w of (r, tr, w') \<Rightarrow> (r, out @ tr, w'))
        else
          (let argv = (if testing then the (testing_cmd c) else command c) in
           case call argv testing w of
             (Inl e, w1) \<Rightarrow> (Inl e, out @ [Call argv testing (Inl e)], w1)
           | (Inr return_code, w1) \<Rightarrow>
               if return_code \<noteq> 0
               then (Inr (Some return_code), out @ [Call argv testing (Inr return_code)], w1)
               else (case run_commands env call testing cs w1 of
                       (r, tr, w') \<Rightarrow> (r, out @ Call argv testing (Inr return_code) # tr, w'))))"

text \<open>
  \<open>main\<close>: the exception it ends with or the value it returns to \<open>sys.exit\<close>, what
  it wrote and started, and the world after it. The store holds the list objects of
  the configurations only, so it is empty when \<open>main\<close> calls \<open>GetBotStepMap\<close>.
\<close>

definition main :: "env \<Rightarrow> 'w subprocess \<Rightarrow> cli_arg list \<Rightarrow> 'w \<Rightarrow> (py_error + int option) \<times> event list \<times> 'w" where
  "main env call argv w =
    (case parse_args env argv default_options [] of
       Inl e \<Rightarrow> (Inl e, [], w)
     | Inr (opts, args) \<Rightarrow>
         if args \<noteq> [] then (Inl (UsageError (UnusedArgs args)), [], w)
         else case get_bot_id opts of
           Inl e \<Rightarrow> (Inl e, [], w)
         | Inr bid \<Rightarrow>
             if \<not> truthy bid then (Inl (UsageError NoBotId), [], w)
             else case GetBotStepMap [] of
               Inl e \<Rightarrow> (Inl e, [], w)
             | Inr (bm, h) \<Rightarrow>
                 (case resolve env bm bid of
                    Inl e \<Rightarrow> (Inl e, [], w)
                  | Inr (None, out) \<Rightarrow> (Inr (Some 1), out @ [PrintCannotInfer bid], w)
                  | Inr (Some bot_config, out) \<Rightarrow>
                      (let command_objs = GetCommands env opts bot_config h;
                           out = out @ [PrintUsingConfig (view_bot h bot_config)]
                                   @ map (\<lambda>c. PrintWillRun (CommandToString env (command c)))
                                       command_objs
                       in case run_commands env call (TESTING opts) command_objs w of
                            (r, tr, w') \<Rightarrow> (r, out @ tr, w'))))"

subsection \<open>Reading a trace\<close>

text \<open>
  The child processes a trace started, with what \<open>subprocess.call\<close> gave for each,
  the step markers it wrote and the command lines it printed.
\<close>

fun calls :: "event list \<Rightarrow> (string list \<times> (py_error + int)) list" where
  "calls [] = []"
| "calls (Call argv t r # es) = (argv, r) # calls es"
| "calls (e # es) = calls es"

fun named_steps :: "event list \<Rightarrow> string list" where
  "named_steps [] = []"
| "named_steps (NamedStep s # es) = s # named_steps es"
| "named_steps (e # es) = named_steps es"

fun printed_commands :: "event list \<Rightarrow> string list" where
  "printed_commands [] = []"
| "printed_commands (PrintCommand s # es) = s # printed_commands es"
| "printed_commands (e # es) = printed_commands es"

text \<open>
  The argument vectors the loop starts when no child fails: in testing mode the
  \<open>testing_cmd\<close> of the commands that have one, otherwise every \<open>command\<close>.
\<close>

definition to_start :: "bool \<Rightarrow> Command list \<Rightarrow> string list list" where
  "to_start testing cs =
     (if testing
      then map (\<lambda>c. the (testing_cmd c))
             (filter (\<lambda>c. case testing_cmd c of None \<Rightarrow> False | Some tc \<Rightarrow> tc \<noteq> []) cs)
      else map command cs)"

subsection \<open>The table written out\<close>

text \<open>
  The table of \<open>GetBotStepMap\<close> as its reader sees it, every list written out;
  \<open>GetBotStepMap_table\<close> below proves that this is what the function returns. Its
  keys are the bot ids.
\<close>

definition bot_table_view :: "(string \<times> BotView) list" where
  "bot_table_view =
    [(''main-builder-dbg'',
      \<lparr>bot_id_v = ''main-builder-dbg'', host_opts_v = [''--compile'', ''--zip-build'', ''--host-tests=check_webview_licenses,findbugs''],
       test_obj_v = None,
       slave_props_v = None\<rparr>),
     (''main-builder-rel'',
      \<lparr>bot_id_v = ''main-builder-rel'', host_opts_v = [''--compile'', ''--zip-build''],
       test_obj_v = None,
       slave_props_v = None\<rparr>),
     (''main-clang-builder'',
      \<lparr>bot_id_v = ''main-clang-builder'', host_opts_v = [''--compile''],
       test_obj_v = None,
       slave_props_v = Some [(''extra_gyp_defines'', ''clang=1'')]\<rparr>),
     (''main-clobber'',
      \<lparr>bot_id_v = ''main-clobber'', host_opts_v = [''--compile''],
       test_obj_v = None,
       slave_props_v = None\<rparr>),
     (''main-tests'',
      \<lparr>bot_id_v = ''main-tests'', host_opts_v = [''--extract-build''],
       test_obj_v = Some \<lparr>tests_v = [''ui'', ''unit''], extra_args_v = Some [''--upload-to-flakiness-server'']\<rparr>,
       slave_props_v = None\<rparr>),
     (''asan-builder-tests'',
      \<lparr>bot_id_v = ''asan-builder-tests'', host_opts_v = [''--compile'', ''--update-clang''],
       test_obj_v = Some \<lparr>tests_v = [''ui'', ''unit''], extra_args_v = Some [''--asan'']\<rparr>,
       slave_props_v = Some [(''extra_gyp_defines'', ''asan=1'')]\<rparr>),
     (''chromedriver-fyi-tests-dbg'',
      \<lparr>bot_id_v = ''chromedriver-fyi-tests-dbg'', host_opts_v = [''--extract-build''],
       test_obj_v = Some \<lparr>tests_v = [''chromedriver''], extra_args_v = Some [''--install=ChromiumTestShell'']\<rparr>,
       slave_props_v = None\<rparr>),
     (''fyi-builder-dbg'',
      \<lparr>bot_id_v = ''fyi-builder-dbg'', host_opts_v = [''--compile'', ''--zip-build'', ''--host-tests=check_webview_licenses,findbugs'', ''--experimental''],
       test_obj_v = None,
       slave_props_v = None\<rparr>),
     (''fyi-builder-rel'',
      \<lparr>bot_id_v = ''fyi-builder-rel'', host_opts_v = [''--compile'', ''--zip-build'', ''--experimental''],
       test_obj_v = None,
       slave_props_v = None\<rparr>),
     (''fyi-tests-dbg-ics-gn'',
      \<lparr>bot_id_v = ''fyi-tests-dbg-ics-gn'', host_opts_v = [''--compile'', ''--experimental''],
       test_obj_v = Some \<lparr>tests_v = [''ui'', ''unit''], extra_args_v = Some [''--experimental'', ''--upload-to-flakiness-server'']\<rparr>,
       slave_props_v = None\<rparr>),
     (''fyi-tests'',
      \<lparr>bot_id_v = ''fyi-tests'', host_opts_v = [''--extract-build''],
       test_obj_v = Some \<lparr>tests_v = [''ui'', ''unit''], extra_args_v = Some [''--experimental'', ''--upload-to-flakiness-server'']\<rparr>,
       slave_props_v = None\<rparr>),
     (''fyi-component-builder-tests-dbg'',
      \<lparr>bot_id_v = ''fyi-component-builder-tests-dbg'', host_opts_v = [''--compile''],
       test_obj_v = Some \<lparr>tests_v = [''ui'', ''unit''], extra_args_v = Some [''--experimental'', ''--upload-to-flakiness-server'']\<rparr>,
       slave_props_v = Some [(''extra_gyp_defines'', ''component=shared_library'')]\<rparr>),
     (''perf-tests-rel'',
      \<lparr>bot_id_v = ''perf-tests-rel'', host_opts_v = [''--extract-build''],
       test_obj_v = Some \<lparr>tests_v = [], extra_args_v = Some [''--install=ContentShell'']\<rparr>,
       slave_props_v = None\<rparr>),
     (''webkit-latest-webkit-tests'',
      \<lparr>bot_id_v = ''webkit-latest-webkit-tests'', host_opts_v = [''--extract-build''],
       test_obj_v = Some \<lparr>tests_v = [''webkit_layout'', ''webkit''], extra_args_v = None\<rparr>,
       slave_props_v = None\<rparr>),
     (''webkit-latest-contentshell'',
      \<lparr>bot_id_v = ''webkit-latest-contentshell'', host_opts_v = [''--compile''],
       test_obj_v = Some \<lparr>tests_v = [''webkit_layout''], extra_args_v = None\<rparr>,
       slave_props_v = None\<rparr>),
     (''builder-unit-tests'',
      \<lparr>bot_id_v = ''builder-unit-tests'', host_opts_v = [''--compile''],
       test_obj_v = Some \<lparr>tests_v = [''unit''], extra_args_v = None\<rparr>,
       slave_props_v = None\<rparr>),
     (''builder'',
      \<lparr>bot_id_v = ''builder'', host_opts_v = [''--compile'', ''--zip-build''],
       test_obj_v = None,
       slave_props_v = None\<rparr>),
     (''lkgr-clobber'',
      \<lparr>bot_id_v = ''lkgr-clobber'', host_opts_v = [''--compile''],
       test_obj_v = None,
       slave_props_v = None\<rparr>),
     (''try-builder-dbg'',
      \<lparr>bot_id_v = ''try-builder-dbg'', host_opts_v = [''--compile'', ''--zip-build'', ''--host-tests=check_webview_licenses,findbugs''],
       test_obj_v = None,
       slave_props_v = None\<rparr>),
     (''try-builder-rel'',
      \<lparr>bot_id_v = ''try-builder-rel'', host_opts_v = [''--compile'', ''--zip-build''],
       test_obj_v = None,
       slave_props_v = None\<rparr>),
     (''try-clang-builder'',
      \<lparr>bot_id_v = ''try-clang-builder'', host_opts_v = [''--compile''],
       test_obj_v = None,
       slave_props_v = Some [(''extra_gyp_defines'', ''clang=1'')]\<rparr>),
     (''try-fyi-builder-dbg'',
      \<lparr>bot_id_v = ''try-fyi-builder-dbg'', host_opts_v = [''--compile'', ''--zip-build'', ''--host-tests=check_webview_licenses,findbugs'', ''--experimental''],
       test_obj_v = None,
       slave_props_v = None\<rparr>),
     (''try-tests'',
      \<lparr>bot_id_v = ''try-tests'', host_opts_v = [''--extract-build''],
       test_obj_v = Some \<lparr>tests_v = [''ui'', ''unit''], extra_args_v = Some []\<rparr>,
       slave_props_v = None\<rparr>),
     (''try-fyi-tests'',
      \<lparr>bot_id_v = ''try-fyi-tests'', host_opts_v = [''--extract-build''],
       test_obj_v = Some \<lparr>tests_v = [''ui'', ''unit''], extra_args_v = Some [''--experimental'']\<rparr>,
       slave_props_v = None\<rparr>),
     (''webkit-latest-tests'',
      \<lparr>bot_id_v = ''webkit-latest-tests'', host_opts_v = [''--extract-build''],
       test_obj_v = Some \<lparr>tests_v = [''ui'', ''unit''], extra_args_v = Some [''--upload-to-flakiness-server'']\<rparr>,
       slave_props_v = None\<rparr>)]"

definition bot_ids :: "string list" where
  "bot_ids = map fst bot_table_view"

subsection \<open>An instance of the parameters\<close>

text \<open>
  The worked examples below need the parameters at some value. \<open>pipes_quote_py\<close>
  is \<open>pipes.quote\<close> of Python 2.7 and \<open>CommandToString_py\<close> is the function of
  \<open>bb_utils\<close>; \<open>sample_dumps\<close> and \<open>sample_loads\<close> stand for \<open>json.dumps\<close> and
  \<open>json.loads\<close> on the few values the examples use: no numbers and no character
  that needs escaping for the first; three texts for the second, which takes every
  other text, such as \<open>{\<close> alone, for malformed. \<open>sample_factory_text\<close> is
  the JSON object with the one key \<open>android_bot_id\<close> and the value
  \<open>main-tests\<close>. The keys of a dict come in the order of insertion.
\<close>

definition sample_factory_text :: string where
  "sample_factory_text =
     ''{'' @ [CHR 0x22] @ ''android_bot_id'' @ [CHR 0x22] @ '': ''
     @ [CHR 0x22] @ ''main-tests'' @ [CHR 0x22] @ ''}''"

definition safechars :: string where
  "safechars = ''abcdefghijklmnopqrstuvwxyzABCDEFGHIJKLMNOPQRSTUVWXYZ0123456789@%_-+=:,./''"

definition pipes_quote_py :: "string \<Rightarrow> string" where
  "pipes_quote_py s =
     (if list_all (\<lambda>c. c \<in> set safechars) s then (if s = [] then [CHR 0x27, CHR 0x27] else s)
      else [CHR 0x27]
           @ concat (map (\<lambda>c. if c = CHR 0x27
                                then [CHR 0x27, CHR 0x22, CHR 0x27, CHR 0x22, CHR 0x27]
                                else [c]) s)
           @ [CHR 0x27])"

definition CommandToString_py :: "string list \<Rightarrow> string" where
  "CommandToString_py cmd = str_join '' '' (map pipes_quote_py cmd)"

fun sample_dumps :: "json \<Rightarrow> string" where
  "sample_dumps JNull = ''null''"
| "sample_dumps (JBool b) = (if b then ''true'' else ''false'')"
| "sample_dumps (JInt n) = ''0''"
| "sample_dumps (JFloat w) = ''0.0''"
| "sample_dumps (JStr s) = [CHR 0x22] @ s @ [CHR 0x22]"
| "sample_dumps (JArr xs) = ''['' @ str_join '', '' (map sample_dumps xs) @ '']''"
| "sample_dumps (JObj kvs) =
     ''{'' @ str_join '', ''
              (map (\<lambda>(k, v). [CHR 0x22] @ k @ [CHR 0x22] @ '': '' @ sample_dumps v) kvs)
     @ ''}''"

definition sample_loads :: "string \<Rightarrow> json option" where
  "sample_loads s =
     (if s = ''{}'' then Some (JObj [])
      else if s = ''[]'' then Some (JArr [])
      else if s = sample_factory_text
        then Some (JObj [(''android_bot_id'', JStr ''main-tests'')])
      else None)"

definition sample_env :: env where
  "sample_env =
     \<lparr>json_loads = sample_loads, json_dumps = sample_dumps, pipes_quote = pipes_quote_py,
      CommandToString = CommandToString_py, CHROME_SRC = ''/b/build/src'',
      iterkeys = (\<lambda>ks. ks)\<rparr>"

section \<open>Properties\<close>

subsection \<open>The configuration table\<close>

text \<open>
  From any store \<open>p\<close>, \<open>GetBotStepMap\<close> succeeds, adds forty-one lists to the
  store and returns twenty-five entries that refer to them.
\<close>

lemma GetBotStepMap_closed_form:
  "GetBotStepMap p = Inr (
     [(''main-builder-dbg'', B ''main-builder-dbg'' (length p + 5) None None),
      (''main-builder-rel'', B ''main-builder-rel'' (length p + 2) None None),
      (''main-clang-builder'', B ''main-clang-builder'' (length p) None (Some [(''extra_gyp_defines'', ''clang=1'')])),
      (''main-clobber'', B ''main-clobber'' (length p) None None),
      (''main-tests'', B ''main-tests'' (length p + 3) (Some (T (length p + 4) (Some (length p + 6)))) None),
      (''asan-builder-tests'', B ''asan-builder-tests'' (length p + 8) (Some (T (length p + 4) (Some (length p + 9)))) (Some [(''extra_gyp_defines'', ''asan=1'')])),
      (''chromedriver-fyi-tests-dbg'', B ''chromedriver-fyi-tests-dbg'' (length p + 3) (Some (T (length p + 10) (Some (length p + 11)))) None),
      (''fyi-builder-dbg'', B ''fyi-builder-dbg'' (length p + 14) None None),
      (''fyi-builder-rel'', B ''fyi-builder-rel'' (length p + 16) None None),
      (''fyi-tests-dbg-ics-gn'', B ''fyi-tests-dbg-ics-gn'' (length p + 18) (Some (T (length p + 4) (Some (length p + 19)))) None),
      (''fyi-tests'', B ''fyi-tests'' (length p + 3) (Some (T (length p + 4) (Some (length p + 20)))) None),
      (''fyi-component-builder-tests-dbg'', B ''fyi-component-builder-tests-dbg'' (length p) (Some (T (length p + 4) (Some (length p + 21)))) (Some [(''extra_gyp_defines'', ''component=shared_library'')])),
      (''perf-tests-rel'', B ''perf-tests-rel'' (length p + 3) (Some (T (length p + 22) (Some (length p + 23)))) None),
      (''webkit-latest-webkit-tests'', B ''webkit-latest-webkit-tests'' (length p + 3) (Some (T (length p + 24) None)) None),
      (''webkit-latest-contentshell'', B ''webkit-latest-contentshell'' (length p) (Some (T (length p + 25) None)) None),
      (''builder-unit-tests'', B ''builder-unit-tests'' (length p) (Some (T (length p + 26) None)) None),
      (''builder'', B ''builder'' (length p + 2) None None),
      (''lkgr-clobber'', B ''lkgr-clobber'' (length p + 27) None None),
      (''try-builder-dbg'', B ''try-builder-dbg'' (length p + 28) None None),
      (''try-builder-rel'', B ''try-builder-rel'' (length p + 29) None None),
      (''try-clang-builder'', B ''try-clang-builder'' (length p + 30) None (Some [(''extra_gyp_defines'', ''clang=1'')])),
      (''try-fyi-builder-dbg'', B ''try-fyi-builder-dbg'' (length p + 31) None None),
      (''try-tests'', B ''try-tests'' (length p + 32) (Some (T (length p + 33) (Some (length p + 34)))) None),
      (''try-fyi-tests'', B ''try-fyi-tests'' (length p + 35) (Some (T (length p + 36) (Some (length p + 37)))) None),
      (''webkit-latest-tests'', B ''webkit-latest-tests'' (length p + 38) (Some (T (length p + 39) (Some (length p + 40)))) None)],
     p @ [[''--compile''],
      [''--host-tests=check_webview_licenses,findbugs''],
      [''--compile'', ''--zip-build''],
      [''--extract-build''],
      [''ui'', ''unit''],
      [''--compile'', ''--zip-build'', ''--host-tests=check_webview_licenses,findbugs''],
      [''--upload-to-flakiness-server''],
      [''--update-clang''],
      [''--compile'', ''--update-clang''],
      [''--asan''],
      [''chromedriver''],
      [''--install=ChromiumTestShell''],
      [''--compile'', ''--zip-build'', ''--host-tests=check_webview_licenses,findbugs''],
      [''--experimental''],
      [''--compile'', ''--zip-build'', ''--host-tests=check_webview_licenses,findbugs'', ''--experimental''],
      [''--experimental''],
      [''--compile'', ''--zip-build'', ''--experimental''],
      [''--experimental''],
      [''--compile'', ''--experimental''],
      [''--experimental'', ''--upload-to-flakiness-server''],
      [''--experimental'', ''--upload-to-flakiness-server''],
      [''--experimental'', ''--upload-to-flakiness-server''],
      [],
      [''--install=ContentShell''],
      [''webkit_layout'', ''webkit''],
      [''webkit_layout''],
      [''unit''],
      [''--compile''],
      [''--compile'', ''--zip-build'', ''--host-tests=check_webview_licenses,findbugs''],
      [''--compile'', ''--zip-build''],
      [''--compile''],
      [''--compile'', ''--zip-build'', ''--host-tests=check_webview_licenses,findbugs'', ''--experimental''],
      [''--extract-build''],
      [''ui'', ''unit''],
      [],
      [''--extract-build''],
      [''ui'', ''unit''],
      [''--experimental''],
      [''--extract-build''],
      [''ui'', ''unit''],
      [''--upload-to-flakiness-server'']])"
  by (simp add: GetBotStepMap_def build_bot_map_def dict_of_configs_def copy_map_def copy_step_def
     deepcopy_def deepcopy_list_def startswith_def flakiness_server_def extra_gyp_def
     bot_configs_def new_list_def list_add_def Let_def B_def T_def nth_append list_update_append
     eval_nat_numeral
     cong: prod.case_cong_weak let_weak_cong option.case_cong_weak sum.case_cong_weak)

lemma bot_table_view_closed_form:
  "view_map (p @ [[''--compile''],
      [''--host-tests=check_webview_licenses,findbugs''],
      [''--compile'', ''--zip-build''],
      [''--extract-build''],
      [''ui'', ''unit''],
      [''--compile'', ''--zip-build'', ''--host-tests=check_webview_licenses,findbugs''],
      [''--upload-to-flakiness-server''],
      [''--update-clang''],
      [''--compile'', ''--update-clang''],
      [''--asan''],
      [''chromedriver''],
      [''--install=ChromiumTestShell''],
      [''--compile'', ''--zip-build'', ''--host-tests=check_webview_licenses,findbugs''],
      [''--experimental''],
      [''--compile'', ''--zip-build'', ''--host-tests=check_webview_licenses,findbugs'', ''--experimental''],
      [''--experimental''],
      [''--compile'', ''--zip-build'', ''--experimental''],
      [''--experimental''],
      [''--compile'', ''--experimental''],
      [''--experimental'', ''--upload-to-flakiness-server''],
      [''--experimental'', ''--upload-to-flakiness-server''],
      [''--experimental'', ''--upload-to-flakiness-server''],
      [],
      [''--install=ContentShell''],
      [''webkit_layout'', ''webkit''],
      [''webkit_layout''],
      [''unit''],
      [''--compile''],
      [''--compile'', ''--zip-build'', ''--host-tests=check_webview_licenses,findbugs''],
      [''--compile'', ''--zip-build''],
      [''--compile''],
      [''--compile'', ''--zip-build'', ''--host-tests=check_webview_licenses,findbugs'', ''--experimental''],
      [''--extract-build''],
      [''ui'', ''unit''],
      [],
      [''--extract-build''],
      [''ui'', ''unit''],
      [''--experimental''],
      [''--extract-build''],
      [''ui'', ''unit''],
      [''--upload-to-flakiness-server'']] @ Y)
     [(''main-builder-dbg'', B ''main-builder-dbg'' (length p + 5) None None),
      (''main-builder-rel'', B ''main-builder-rel'' (length p + 2) None None),
      (''main-clang-builder'', B ''main-clang-builder'' (length p) None (Some [(''extra_gyp_defines'', ''clang=1'')])),
      (''main-clobber'', B ''main-clobber'' (length p) None None),
      (''main-tests'', B ''main-tests'' (length p + 3) (Some (T (length p + 4) (Some (length p + 6)))) None),
      (''asan-builder-tests'', B ''asan-builder-tests'' (length p + 8) (Some (T (length p + 4) (Some (length p + 9)))) (Some [(''extra_gyp_defines'', ''asan=1'')])),
      (''chromedriver-fyi-tests-dbg'', B ''chromedriver-fyi-tests-dbg'' (length p + 3) (Some (T (length p + 10) (Some (length p + 11)))) None),
      (''fyi-builder-dbg'', B ''fyi-builder-dbg'' (length p + 14) None None),
      (''fyi-builder-rel'', B ''fyi-builder-rel'' (length p + 16) None None),
      (''fyi-tests-dbg-ics-gn'', B ''fyi-tests-dbg-ics-gn'' (length p + 18) (Some (T (length p + 4) (Some (length p + 19)))) None),
      (''fyi-tests'', B ''fyi-tests'' (length p + 3) (Some (T (length p + 4) (Some (length p + 20)))) None),
      (''fyi-component-builder-tests-dbg'', B ''fyi-component-builder-tests-dbg'' (length p) (Some (T (length p + 4) (Some (length p + 21)))) (Some [(''extra_gyp_defines'', ''component=shared_library'')])),
      (''perf-tests-rel'', B ''perf-tests-rel'' (length p + 3) (Some (T (length p + 22) (Some (length p + 23)))) None),
      (''webkit-latest-webkit-tests'', B ''webkit-latest-webkit-tests'' (length p + 3) (Some (T (length p + 24) None)) None),
      (''webkit-latest-contentshell'', B ''webkit-latest-contentshell'' (length p) (Some (T (length p + 25) None)) None),
      (''builder-unit-tests'', B ''builder-unit-tests'' (length p) (Some (T (length p + 26) None)) None),
      (''builder'', B ''builder'' (length p + 2) None None),
      (''lkgr-clobber'', B ''lkgr-clobber'' (length p + 27) None None),
      (''try-builder-dbg'', B ''try-builder-dbg'' (length p + 28) None None),
      (''try-builder-rel'', B ''try-builder-rel'' (length p + 29) None None),
      (''try-clang-builder'', B ''try-clang-builder'' (length p + 30) None (Some [(''extra_gyp_defines'', ''clang=1'')])),
      (''try-fyi-builder-dbg'', B ''try-fyi-builder-dbg'' (length p + 31) None None),
      (''try-tests'', B ''try-tests'' (length p + 32) (Some (T (length p + 33) (Some (length p + 34)))) None),
      (''try-fyi-tests'', B ''try-fyi-tests'' (length p + 35) (Some (T (length p + 36) (Some (length p + 37)))) None),
      (''webkit-latest-tests'', B ''webkit-latest-tests'' (length p + 38) (Some (T (length p + 39) (Some (length p + 40)))) None)] = bot_table_view"
  by (simp add: view_map_def view_bot_def view_test_def B_def T_def bot_table_view_def
        nth_append eval_nat_numeral)

lemma GetBotStepMap_table:
  "\<exists>bm X. GetBotStepMap p = Inr (bm, p @ X) \<and> (\<forall>Y. view_map (p @ X @ Y) bm = bot_table_view)"
  using GetBotStepMap_closed_form[of p] bot_table_view_closed_form[of p] by blast

lemma map_fst_view_map: "map fst (view_map h bm) = map fst bm"
  by (simp add: view_map_def case_prod_unfold)

lemma GetBotStepMap_keys:
  "\<exists>bm h. GetBotStepMap p = Inr (bm, h) \<and> map fst bm = bot_ids"
proof -
  from GetBotStepMap_table[of p] obtain bm X where
    g: "GetBotStepMap p = Inr (bm, p @ X)" and v: "\<forall>Y. view_map (p @ X @ Y) bm = bot_table_view"
    by blast
  from v have "view_map (p @ X @ []) bm = bot_table_view" by blast
  then have "map fst (view_map (p @ X @ []) bm) = bot_ids" by (simp only: bot_ids_def)
  then have "map fst bm = bot_ids" by (simp only: map_fst_view_map)
  with g show ?thesis by blast
qed

lemma bot_ids_eq:
  "bot_ids =
    [''main-builder-dbg'', ''main-builder-rel'', ''main-clang-builder'', ''main-clobber'',
     ''main-tests'', ''asan-builder-tests'', ''chromedriver-fyi-tests-dbg'', ''fyi-builder-dbg'',
     ''fyi-builder-rel'', ''fyi-tests-dbg-ics-gn'', ''fyi-tests'',
     ''fyi-component-builder-tests-dbg'', ''perf-tests-rel'', ''webkit-latest-webkit-tests'',
     ''webkit-latest-contentshell'', ''builder-unit-tests'', ''builder'', ''lkgr-clobber'',
     ''try-builder-dbg'', ''try-builder-rel'', ''try-clang-builder'', ''try-fyi-builder-dbg'',
     ''try-tests'', ''try-fyi-tests'', ''webkit-latest-tests'']"
  by (simp add: bot_ids_def bot_table_view_def)

lemma map_of_view_map: "map_of (view_map h bm) k = map_option (view_bot h) (map_of bm k)"
  by (induction bm) (auto simp: view_map_def)

lemma GetBotStepMap_entry:
  assumes "map_of bot_table_view k = Some v"
  shows "\<exists>bm h cfg. GetBotStepMap [] = Inr (bm, h) \<and> map_of bm k = Some cfg \<and> view_bot h cfg = v"
proof -
  from GetBotStepMap_table[of "[]"] obtain bm X where
    g: "GetBotStepMap [] = Inr (bm, [] @ X)" and v: "\<forall>Y. view_map ([] @ X @ Y) bm = bot_table_view"
    by blast
  from v have "view_map ([] @ X @ []) bm = bot_table_view" by blast
  then have "view_map ([] @ X) bm = bot_table_view" by simp
  with assms have "map_option (view_bot ([] @ X)) (map_of bm k) = Some v"
    by (simp only: map_of_view_map[symmetric])
  then obtain cfg where "map_of bm k = Some cfg" "view_bot ([] @ X) cfg = v" by auto
  with g show ?thesis by blast
qed




subsection \<open>The construction of the table\<close>



lemma map_of_foldl_update:
  "map_of (foldl (\<lambda>m c. AList.update (bot_id c) c m) m cfgs)
     = map_of m ++ map_of (rev (map (\<lambda>c. (bot_id c, c)) cfgs))"
proof (induction cfgs arbitrary: m)
  case Nil
  then show ?case by simp
next
  case (Cons c cs)
  have "map_of (foldl (\<lambda>m c. AList.update (bot_id c) c m) m (c # cs))
        = map_of (AList.update (bot_id c) c m) ++ map_of (rev (map (\<lambda>c. (bot_id c, c)) cs))"
    by (simp add: Cons.IH)
  also have "\<dots> = map_of m ++ ([bot_id c \<mapsto> c] ++ map_of (rev (map (\<lambda>c. (bot_id c, c)) cs)))"
    by (simp add: update_conv' fun_eq_iff map_add_def split: option.splits)
  also have "\<dots> = map_of m ++ map_of (rev (map (\<lambda>c. (bot_id c, c)) (c # cs)))"
    by simp
  finally show ?case .
qed

lemma map_of_dict_of_configs:
  "map_of (dict_of_configs cfgs) = map_of (rev (map (\<lambda>c. (bot_id c, c)) cfgs))"
  by (simp add: dict_of_configs_def map_of_foldl_update)



text \<open>
  Line 134 compares no ids: \<open>dict\<close> keeps, for each bot id, the last configuration
  declared under it (\<open>map_of_dict_of_configs\<close>). The seventeen primaries of the
  script have distinct ids, so no run meets that case.
\<close>



lemma bot_table_view_try:
  "(\<forall>(to_id, from_id) \<in> set copy_map. startswith to_id ''try'' \<longrightarrow>
      (\<forall>sv tv ea. map_of bot_table_view from_id = Some sv \<and> test_obj_v sv = Some tv
                   \<and> extra_args_v tv = Some ea \<and> flakiness_server \<in> set ea \<longrightarrow>
         (\<exists>cv tv' ea'. map_of bot_table_view to_id = Some cv \<and> test_obj_v cv = Some tv'
                   \<and> extra_args_v tv' = Some ea' \<and> flakiness_server \<notin> set ea')))"
  by (simp add: bot_table_view_def copy_map_def startswith_def flakiness_server_def)

lemma bot_table_view_main_tests:
  "\<exists>sv tv ea. map_of bot_table_view ''main-tests'' = Some sv \<and> test_obj_v sv = Some tv
       \<and> extra_args_v tv = Some ea \<and> flakiness_server \<in> set ea"
  by (simp add: bot_table_view_def flakiness_server_def)

lemma bot_table_view_try_tests:
  "\<exists>cv tv ea. map_of bot_table_view ''try-tests'' = Some cv \<and> test_obj_v cv = Some tv
       \<and> extra_args_v tv = Some ea \<and> flakiness_server \<notin> set ea"
  by (simp add: bot_table_view_def flakiness_server_def)

text \<open>
  Claim C2. From any store, \<open>GetBotStepMap\<close> returns a table in which, for every
  alias whose new id starts with \<open>try\<close> and whose source has the flag
  \<open>--upload-to-flakiness-server\<close> among the extra arguments of its test spec, the
  extra arguments of the alias do not have the flag. The source keeps it:
  \<open>main-tests\<close> has the flag in the returned table and \<open>try-tests\<close> has not.
\<close>

theorem try_aliases_drop_flakiness_flag:
  "\<exists>bm h. GetBotStepMap h0 = Inr (bm, h)
     \<and> (\<forall>(to_id, from_id) \<in> set copy_map. startswith to_id ''try'' \<longrightarrow>
          (\<forall>sv tv ea. map_of (view_map h bm) from_id = Some sv \<and> test_obj_v sv = Some tv
                       \<and> extra_args_v tv = Some ea \<and> flakiness_server \<in> set ea \<longrightarrow>
             (\<exists>cv tv' ea'. map_of (view_map h bm) to_id = Some cv \<and> test_obj_v cv = Some tv'
                       \<and> extra_args_v tv' = Some ea' \<and> flakiness_server \<notin> set ea')))
     \<and> (\<exists>sv tv ea. map_of (view_map h bm) ''main-tests'' = Some sv \<and> test_obj_v sv = Some tv
           \<and> extra_args_v tv = Some ea \<and> flakiness_server \<in> set ea)
     \<and> (\<exists>cv tv ea. map_of (view_map h bm) ''try-tests'' = Some cv \<and> test_obj_v cv = Some tv
           \<and> extra_args_v tv = Some ea \<and> flakiness_server \<notin> set ea)"
proof -
  from GetBotStepMap_table[of h0] obtain bm X where
    g: "GetBotStepMap h0 = Inr (bm, h0 @ X)" and v: "\<forall>Y. view_map (h0 @ X @ Y) bm = bot_table_view"
    by blast
  from v have "view_map (h0 @ X @ []) bm = bot_table_view" by blast
  then have vw: "view_map (h0 @ X) bm = bot_table_view" by simp
  show ?thesis
    apply (rule exI[of _ bm], rule exI[of _ "h0 @ X"])
    apply (simp only: vw)
    apply (intro conjI)
       apply (rule g)
      apply (rule bot_table_view_try)
     apply (rule bot_table_view_main_tests)
    apply (rule bot_table_view_try_tests)
    done
qed

theorem try_aliases_drop_flakiness_flag_witness:
  "(''try-tests'', ''main-tests'') \<in> set copy_map \<and> startswith ''try-tests'' ''try''
   \<and> (\<exists>bm h. GetBotStepMap [] = Inr (bm, h)
        \<and> (\<exists>sv tv ea. map_of (view_map h bm) ''main-tests'' = Some sv \<and> test_obj_v sv = Some tv
              \<and> extra_args_v tv = Some ea \<and> flakiness_server \<in> set ea)
        \<and> (\<exists>cv tv ea. map_of (view_map h bm) ''try-tests'' = Some cv \<and> test_obj_v cv = Some tv
              \<and> extra_args_v tv = Some ea \<and> flakiness_server \<notin> set ea))"
proof -
  have a: "(''try-tests'', ''main-tests'') \<in> set copy_map" by (simp add: copy_map_def)
  have b: "startswith ''try-tests'' ''try''" by (simp add: startswith_def)
  from try_aliases_drop_flakiness_flag[of "[]"] a b show ?thesis by blast
qed

subsection \<open>The command formatter\<close>

lemma foldl_f_pairs:
  "foldl (\<lambda>cmd test. cmd @ [''-f'', test]) acc ts = acc @ concat (map (\<lambda>t. [''-f'', t]) ts)"
  by (induction ts arbitrary: acc) simp_all

lemma dict_update_empty: "dict_update d [] = d"
  by (simp add: dict_update_def)

text \<open>
  Claim C4. \<open>GetCommands\<close> returns the \<open>Host steps\<close> command exactly when
  \<open>host_opts\<close> is non-empty, then the \<open>Run tests\<close> command exactly when a test
  spec is present. The argument vector of the test command is the device-step script,
  \<open>--reboot\<close>, the three property arguments, one pair \<open>-f test\<close> for each test in
  the order of the test spec, and the extra arguments; it is the \<open>testing_cmd\<close> as it
  is, and the shell command after quoting and joining.
\<close>

theorem GetCommands_shape:
  "map step_name (GetCommands env opts c h) =
     (if h ! host_opts c = [] then [] else [Some ''Host steps''])
     @ (case test_obj c of None \<Rightarrow> [] | Some t \<Rightarrow> [Some ''Run tests''])
   \<and> (\<forall>t. test_obj c = Some t \<longrightarrow>
        (let sprops = dict_update GLOBAL_SLAVE_PROPS (case slave_props c of None \<Rightarrow> [] | Some d \<Rightarrow> d);
             slave_properties = json_dumps env (JObj (map (\<lambda>(k, v). (k, JStr v)) sprops));
             argv = [''build/android/buildbot/bb_device_steps.py'', ''--reboot'']
                    @ [''--factory-properties='' @ json_dumps env (factory_properties opts),
                       ''--build-properties='' @ json_dumps env (build_properties opts),
                       ''--slave-properties='' @ slave_properties]
                    @ concat (map (\<lambda>x. [''-f'', x]) (h ! tests t))
                    @ (case extra_args t of None \<Rightarrow> [] | Some ea \<Rightarrow> h ! ea)
         in last (GetCommands env opts c h) =
              \<lparr>step_name = Some ''Run tests'',
               command = WrapWithBash env slave_properties
                           (str_join '' '' (map (pipes_quote env) argv)),
               testing_cmd = Some argv\<rparr>))"
  by (auto simp add: GetCommands_def Let_def foldl_f_pairs dict_update_empty
        split: option.splits)

theorem GetCommands_shape_witness:
  "map step_name (GetCommands sample_env default_options
       (B ''asan-builder-tests'' 0 (Some (T 1 (Some 2))) None)
       [[''--compile''], [''ui'', ''unit''], [''--asan'']])
     = [Some ''Host steps'', Some ''Run tests'']
   \<and> testing_cmd (last (GetCommands sample_env default_options
       (B ''asan-builder-tests'' 0 (Some (T 1 (Some 2))) None)
       [[''--compile''], [''ui'', ''unit''], [''--asan'']]))
     = Some [''build/android/buildbot/bb_device_steps.py'', ''--reboot'',
             ''--factory-properties={}'', ''--build-properties={}'', ''--slave-properties={}'',
             ''-f'', ''ui'', ''-f'', ''unit'', ''--asan'']"
  using GetCommands_shape [of sample_env default_options
      "B ''asan-builder-tests'' 0 (Some (T 1 (Some 2))) None"
      "[[''--compile''], [''ui'', ''unit''], [''--asan'']]"]
  by (simp add: B_def T_def Let_def GLOBAL_SLAVE_PROPS_def dict_update_def sample_env_def
        default_options_def)

lemma GetCommands_fields:
  "\<forall>c \<in> set (GetCommands env opts cfg h).
      (step_name c = Some ''Host steps'' \<or> step_name c = Some ''Run tests'')
      \<and> (\<exists>tc. testing_cmd c = Some tc \<and> tc \<noteq> [])"
  by (auto simp add: GetCommands_def Let_def foldl_f_pairs split: option.splits)

lemma GetCommands_view:
  assumes "view_bot h c = view_bot h' c'"
  shows "GetCommands env opts c h = GetCommands env opts c' h'"
proof -
  from assms have ho: "h ! host_opts c = h' ! host_opts c'" and sp: "slave_props c = slave_props c'"
    and tv: "map_option (view_test h) (test_obj c) = map_option (view_test h') (test_obj c')"
    by (simp_all add: view_bot_def)
  show ?thesis
  proof (cases "test_obj c")
    case None
    with tv have "test_obj c' = None" by simp
    with None ho sp show ?thesis by (simp add: GetCommands_def Let_def)
  next
    case (Some t)
    with tv obtain t' where t': "test_obj c' = Some t'" and vt: "view_test h t = view_test h' t'"
      by (cases "test_obj c'") auto
    from vt have ts: "h ! tests t = h' ! tests t'"
      and ea: "map_option (\<lambda>a. h ! a) (extra_args t) = map_option (\<lambda>a. h' ! a) (extra_args t')"
      by (simp_all add: view_test_def)
    show ?thesis
    proof (cases "extra_args t")
      case None
      with ea have "extra_args t' = None" by simp
      with None Some t' ho sp ts show ?thesis by (simp add: GetCommands_def Let_def)
    next
      case (Some a)
      with ea obtain a' where "extra_args t' = Some a'" "h ! a = h' ! a'"
        by (cases "extra_args t'") auto
      with Some \<open>test_obj c = Some t\<close> t' ho sp ts show ?thesis by (simp add: GetCommands_def Let_def)
    qed
  qed
qed

text \<open>
  Claim C9. \<open>GetBotStepMap\<close> takes nothing from outside: from any store it returns
  the same table, and a second call, on the store the first one left, returns the same
  table again and leaves the table of the first call as it was. \<open>GetCommands\<close>
  depends on the configuration only through the contents of its lists: two
  configurations that read the same, in any two stores, give the same commands.
\<close>

theorem formatting_deterministic:
  "(\<exists>bm1 h1 bm2 h2. GetBotStepMap h0 = Inr (bm1, h1) \<and> GetBotStepMap h1 = Inr (bm2, h2)
       \<and> view_map h1 bm1 = bot_table_view \<and> view_map h2 bm2 = bot_table_view
       \<and> view_map h2 bm1 = bot_table_view)
   \<and> (view_bot h c = view_bot h' c' \<longrightarrow> GetCommands env opts c h = GetCommands env opts c' h')"
proof -
  from GetBotStepMap_table[of h0] obtain bm1 X1 where
    g1: "GetBotStepMap h0 = Inr (bm1, h0 @ X1)"
    and v1: "\<forall>Y. view_map (h0 @ X1 @ Y) bm1 = bot_table_view"
    by blast
  from GetBotStepMap_table[of "h0 @ X1"] obtain bm2 X2 where
    g2: "GetBotStepMap (h0 @ X1) = Inr (bm2, (h0 @ X1) @ X2)"
    and v2: "\<forall>Y. view_map ((h0 @ X1) @ X2 @ Y) bm2 = bot_table_view"
    by blast
  from v1 have "view_map (h0 @ X1 @ []) bm1 = bot_table_view" by blast
  then have a: "view_map (h0 @ X1) bm1 = bot_table_view" by simp
  from v2 have "view_map ((h0 @ X1) @ X2 @ []) bm2 = bot_table_view" by blast
  then have b: "view_map ((h0 @ X1) @ X2) bm2 = bot_table_view" by simp
  from v1 have "view_map (h0 @ X1 @ X2) bm1 = bot_table_view" by blast
  then have c: "view_map ((h0 @ X1) @ X2) bm1 = bot_table_view" by simp
  from g1 g2 a b c
  have "\<exists>bm1 h1 bm2 h2. GetBotStepMap h0 = Inr (bm1, h1) \<and> GetBotStepMap h1 = Inr (bm2, h2)
       \<and> view_map h1 bm1 = bot_table_view \<and> view_map h2 bm2 = bot_table_view
       \<and> view_map h2 bm1 = bot_table_view" by blast
  then show ?thesis using GetCommands_view[of h c h' c' env opts] by blast
qed

theorem formatting_deterministic_witness:
  "view_bot [[''--compile'']] (B ''builder'' 0 None None)
     = view_bot [[], [''--compile'']] (B ''builder'' 1 None None)
   \<and> GetCommands sample_env default_options (B ''builder'' 0 None None) [[''--compile'']]
     = GetCommands sample_env default_options (B ''builder'' 1 None None) [[], [''--compile'']]"
proof -
  have v: "view_bot [[''--compile'']] (B ''builder'' 0 None None)
     = view_bot [[], [''--compile'']] (B ''builder'' 1 None None)"
    by (simp add: view_bot_def B_def)
  from formatting_deterministic[of "[]" "[[''--compile'']]" "B ''builder'' 0 None None"
      "[[], [''--compile'']]" "B ''builder'' 1 None None" sample_env default_options] v
  show ?thesis by blast
qed

subsection \<open>The execution driver\<close>

lemma calls_append: "calls (xs @ ys) = calls xs @ calls ys"
  by (induction xs rule: calls.induct) simp_all

lemma named_steps_append: "named_steps (xs @ ys) = named_steps xs @ named_steps ys"
  by (induction xs rule: named_steps.induct) simp_all

lemma printed_commands_append: "printed_commands (xs @ ys) = printed_commands xs @ printed_commands ys"
  by (induction xs rule: printed_commands.induct) simp_all

lemma calls_step_out: "calls (step_out env c) = []"
  by (simp add: step_out_def split: option.splits)

lemma run_commands_Cons:
  "run_commands env call testing (c # cs) w =
    (if testing \<and> (case testing_cmd c of None \<Rightarrow> True | Some tc \<Rightarrow> tc = []) then
          (case run_commands env call testing cs w of (r, tr, w') \<Rightarrow> (r, step_out env c @ tr, w'))
        else
          (let argv = (if testing then the (testing_cmd c) else command c) in
           case call argv testing w of
             (Inl e, w1) \<Rightarrow> (Inl e, step_out env c @ [Call argv testing (Inl e)], w1)
           | (Inr return_code, w1) \<Rightarrow>
               if return_code \<noteq> 0
               then (Inr (Some return_code), step_out env c @ [Call argv testing (Inr return_code)], w1)
               else (case run_commands env call testing cs w1 of
                       (r, tr, w') \<Rightarrow> (r, step_out env c @ Call argv testing (Inr return_code) # tr, w'))))"
  by (simp only: run_commands.simps Let_def)

lemma run_commands_calls:
  assumes "run_commands env call testing cs w = (r, tr, w')"
  shows "take (length (calls tr)) (to_start testing cs) = map fst (calls tr)
       \<and> (r = Inr None \<longrightarrow>
             map fst (calls tr) = to_start testing cs \<and> (\<forall>x \<in> set (calls tr). snd x = Inr 0))
       \<and> (r \<noteq> Inr None \<longrightarrow>
             calls tr \<noteq> [] \<and> (\<forall>x \<in> set (butlast (calls tr)). snd x = Inr 0)
             \<and> snd (last (calls tr)) \<noteq> Inr 0
             \<and> r = (case snd (last (calls tr)) of Inl e \<Rightarrow> Inl e | Inr rc \<Rightarrow> Inr (Some rc)))"
  using assms
proof (induction cs arbitrary: w r tr w')
  case Nil
  then show ?case by (auto simp: to_start_def)
next
  case (Cons c cs)
  show ?case
  proof (cases "testing \<and> (case testing_cmd c of None \<Rightarrow> True | Some tc \<Rightarrow> tc = [])")
    case True
    obtain r1 tr1 w1 where rec: "run_commands env call testing cs w = (r1, tr1, w1)"
      by (cases "run_commands env call testing cs w") auto
    from Cons.prems True rec have eq: "r = r1" "tr = step_out env c @ tr1"
      by (auto simp: run_commands_Cons simp del: run_commands.simps)
    have ts: "to_start testing (c # cs) = to_start testing cs"
      using True by (auto simp: to_start_def split: option.splits)
    show ?thesis using Cons.IH[OF rec] unfolding eq ts
      by (simp add: calls_append calls_step_out)
  next
    case False
    define argv where "argv = (if testing then the (testing_cmd c) else command c)"
    have ts: "to_start testing (c # cs) = argv # to_start testing cs"
      using False by (auto simp: to_start_def argv_def split: option.splits)
    obtain res w1 where cl: "call argv testing w = (res, w1)"
      by (cases "call argv testing w") auto
    show ?thesis
    proof (cases res)
      case (Inl e)
      with Cons.prems False cl have "r = Inl e" "tr = step_out env c @ [Call argv testing (Inl e)]"
        by (auto simp: run_commands_Cons argv_def Let_def simp del: run_commands.simps)
      then show ?thesis by (simp add: calls_append calls_step_out ts)
    next
      case (Inr rc)
      show ?thesis
      proof (cases "rc = 0")
        case False
        with Cons.prems \<open>\<not> (testing \<and> _)\<close> cl Inr
        have "r = Inr (Some rc)" "tr = step_out env c @ [Call argv testing (Inr rc)]"
          by (auto simp: run_commands_Cons argv_def Let_def simp del: run_commands.simps)
        then show ?thesis using False by (simp add: calls_append calls_step_out ts)
      next
        case True
        obtain r1 tr1 w2 where rec: "run_commands env call testing cs w1 = (r1, tr1, w2)"
          by (cases "run_commands env call testing cs w1") auto
        from Cons.prems \<open>\<not> (testing \<and> _)\<close> cl Inr True rec
        have eq: "r = r1" "tr = step_out env c @ Call argv testing (Inr 0) # tr1"
          by (auto simp: run_commands_Cons argv_def Let_def simp del: run_commands.simps)
        show ?thesis using Cons.IH[OF rec] unfolding eq ts
          by (auto simp add: calls_append calls_step_out butlast_append split: if_splits)
      qed
    qed
  qed
qed


lemma main_returns_loop_result:
  assumes "parse_args env argv default_options [] = Inr (opts, [])"
    and "get_bot_id opts = Inr bid" and "truthy bid"
    and "GetBotStepMap [] = Inr (bm, h)"
    and "resolve env bm bid = Inr (Some cfg, out)"
    and "run_commands env call (TESTING opts) (GetCommands env opts cfg h) w = (r, tr, w')"
  shows "main env call argv w =
           (r, out @ [PrintUsingConfig (view_bot h cfg)]
                 @ map (\<lambda>c. PrintWillRun (CommandToString env (command c)))
                     (GetCommands env opts cfg h) @ tr, w')"
  using assms by (simp add: main_def Let_def)

lemma run_commands_two_first_fails:
  assumes "call (command c1) False w = (Inr 2, w1)"
  shows "run_commands env call False [c1, c2] w
           = (Inr (Some 2), step_out env c1 @ [Call (command c1) False (Inr 2)], w1)"
  using assms by (simp add: run_commands_Cons del: run_commands.simps)

lemma to_start_all:
  "\<forall>c\<in>set cs. \<exists>tc. testing_cmd c = Some tc \<and> tc \<noteq> [] \<Longrightarrow>
     to_start testing cs = map (\<lambda>c. if testing then the (testing_cmd c) else command c) cs"
  by (induction cs) (auto simp: to_start_def)

lemma resolve_out_silent:
  "resolve env bm bid = Inr (x, out) \<Longrightarrow>
     calls out = [] \<and> named_steps out = [] \<and> printed_commands out = []"
  by (auto simp add: resolve_def Let_def split: json.splits option.splits if_splits)

lemma will_run_silent:
  "calls (map (\<lambda>c. PrintWillRun (f c)) cs) = []
   \<and> named_steps (map (\<lambda>c. PrintWillRun (f c)) cs) = []
   \<and> printed_commands (map (\<lambda>c. PrintWillRun (f c)) cs) = []"
  by (induction cs) simp_all

lemma main_trace:
  assumes "parse_args env argv default_options [] = Inr (opts, [])"
    and "get_bot_id opts = Inr bid" and "truthy bid"
    and "GetBotStepMap [] = Inr (bm, h)"
    and "resolve env bm bid = Inr (Some cfg, out)"
    and "main env call argv w = (res, tr, w')"
  shows "\<exists>pre tr1. tr = pre @ tr1 \<and> calls pre = [] \<and> named_steps pre = []
           \<and> printed_commands pre = []
           \<and> run_commands env call (TESTING opts) (GetCommands env opts cfg h) w = (res, tr1, w')"
proof -
  obtain r tr1 w1 where run: "run_commands env call (TESTING opts) (GetCommands env opts cfg h) w = (r, tr1, w1)"
    by (cases "run_commands env call (TESTING opts) (GetCommands env opts cfg h) w") auto
  let ?pre = "out @ [PrintUsingConfig (view_bot h cfg)]
                 @ map (\<lambda>c. PrintWillRun (CommandToString env (command c)))
                     (GetCommands env opts cfg h)"
  from main_returns_loop_result[OF assms(1-5) run] assms(6)
  have eq: "res = r" "tr = ?pre @ tr1" "w' = w1" by simp_all
  have "calls ?pre = [] \<and> named_steps ?pre = [] \<and> printed_commands ?pre = []"
    using resolve_out_silent[OF assms(5)] will_run_silent[of "\<lambda>c. CommandToString env (command c)" "GetCommands env opts cfg h"]
    by (simp add: calls_append named_steps_append printed_commands_append)
  with eq run show ?thesis by blast
qed


text \<open>
  Claim C3. Let \<open>main\<close> have parsed its arguments and resolved the bot id to a
  configuration. Then it starts the commands of \<open>GetCommands\<close> in order, none
  left out. When \<open>main\<close> returns \<open>None\<close> (exit status 0), every command was
  started and every child returned zero. Otherwise the last child started is the
  first that did not return zero: every child before it returned zero, nothing is
  started after it, and what it returned is what \<open>main\<close> returns to \<open>sys.exit\<close>
  (its exception, when \<open>subprocess.call\<close> raised). In particular, when the
  configuration gives two commands and the first returns 2, only the first is started
  and \<open>main\<close> returns 2. The loop does the same on any list of commands.
\<close>

theorem main_first_failure:
  assumes "parse_args env argv default_options [] = Inr (opts, [])"
    and "get_bot_id opts = Inr bid" and "truthy bid"
    and "GetBotStepMap [] = Inr (bm, h)"
    and "resolve env bm bid = Inr (Some cfg, out)"
    and "main env call argv w = (res, tr, w')"
  shows "to_start (TESTING opts) (GetCommands env opts cfg h)
           = map (\<lambda>c. if TESTING opts then the (testing_cmd c) else command c)
               (GetCommands env opts cfg h)
       \<and> take (length (calls tr)) (to_start (TESTING opts) (GetCommands env opts cfg h))
           = map fst (calls tr)
       \<and> (res = Inr None \<longrightarrow>
             map fst (calls tr) = to_start (TESTING opts) (GetCommands env opts cfg h)
             \<and> (\<forall>x \<in> set (calls tr). snd x = Inr 0))
       \<and> (res \<noteq> Inr None \<longrightarrow>
             calls tr \<noteq> [] \<and> (\<forall>x \<in> set (butlast (calls tr)). snd x = Inr 0)
             \<and> snd (last (calls tr)) \<noteq> Inr 0
             \<and> res = (case snd (last (calls tr)) of Inl e \<Rightarrow> Inl e | Inr rc \<Rightarrow> Inr (Some rc)))
       \<and> (\<forall>c1 c2 w1. GetCommands env opts cfg h = [c1, c2]
              \<and> call (if TESTING opts then the (testing_cmd c1) else command c1) (TESTING opts) w
                  = (Inr 2, w1) \<longrightarrow>
             res = Inr (Some 2)
             \<and> calls tr = [(if TESTING opts then the (testing_cmd c1) else command c1, Inr 2)])
       \<and> (\<forall>testing cs w0 r0 tr0 w0'. run_commands env call testing cs w0 = (r0, tr0, w0') \<longrightarrow>
             take (length (calls tr0)) (to_start testing cs) = map fst (calls tr0)
             \<and> (r0 = Inr None \<longrightarrow>
                   map fst (calls tr0) = to_start testing cs \<and> (\<forall>x \<in> set (calls tr0). snd x = Inr 0))
             \<and> (r0 \<noteq> Inr None \<longrightarrow>
                   calls tr0 \<noteq> [] \<and> (\<forall>x \<in> set (butlast (calls tr0)). snd x = Inr 0)
                   \<and> snd (last (calls tr0)) \<noteq> Inr 0
                   \<and> r0 = (case snd (last (calls tr0)) of Inl e \<Rightarrow> Inl e | Inr rc \<Rightarrow> Inr (Some rc))))
       \<and> (\<forall>c1 c2 w0 w1. call (command c1) False w0 = (Inr 2, w1) \<longrightarrow>
             (\<exists>tr1. run_commands env call False [c1, c2] w0 = (Inr (Some 2), tr1, w1)
                    \<and> calls tr1 = [(command c1, Inr 2)]))"
proof -
  let ?cs = "GetCommands env opts cfg h"
  let ?t = "TESTING opts"
  from main_trace[OF assms] obtain pre tr1 where
    tr: "tr = pre @ tr1" and pre: "calls pre = []"
    and run: "run_commands env call ?t ?cs w = (res, tr1, w')"
    by blast
  have ctr: "calls tr = calls tr1" using tr pre by (simp add: calls_append)
  have fields: "\<forall>c\<in>set ?cs. \<exists>tc. testing_cmd c = Some tc \<and> tc \<noteq> []"
    using GetCommands_fields[of env opts cfg h] by blast
  have A: "to_start ?t ?cs = map (\<lambda>c. if ?t then the (testing_cmd c) else command c) ?cs"
    by (rule to_start_all[OF fields])
  note B = run_commands_calls[OF run, folded ctr]
  have C: "\<forall>c1 c2 w1. ?cs = [c1, c2]
              \<and> call (if ?t then the (testing_cmd c1) else command c1) ?t w = (Inr 2, w1) \<longrightarrow>
             res = Inr (Some 2)
             \<and> calls tr = [(if ?t then the (testing_cmd c1) else command c1, Inr 2)]"
  proof (intro allI impI)
    fix c1 c2 :: Command and w1
    assume a: "?cs = [c1, c2]
              \<and> call (if ?t then the (testing_cmd c1) else command c1) ?t w = (Inr 2, w1)"
    then have "c1 \<in> set ?cs" by simp
    with fields obtain tc where tc: "testing_cmd c1 = Some tc" "tc \<noteq> []" by blast
    from a have cs: "?cs = [c1, c2]"
      and cl: "call (if ?t then the (testing_cmd c1) else command c1) ?t w = (Inr 2, w1)"
      by simp_all
    have "run_commands env call ?t [c1, c2] w
        = (Inr (Some 2),
           step_out env c1 @ [Call (if ?t then the (testing_cmd c1) else command c1) ?t (Inr 2)], w1)"
      using tc cl by (simp add: run_commands_Cons Let_def del: run_commands.simps)
    with run cs have "res = Inr (Some 2)"
      "tr1 = step_out env c1 @ [Call (if ?t then the (testing_cmd c1) else command c1) ?t (Inr 2)]"
      by simp_all
    then show "res = Inr (Some 2)
             \<and> calls tr = [(if ?t then the (testing_cmd c1) else command c1, Inr 2)]"
      unfolding ctr by (simp add: calls_append calls_step_out)
  qed
  have D: "\<forall>testing cs w0 r0 tr0 w0'. run_commands env call testing cs w0 = (r0, tr0, w0') \<longrightarrow>
             take (length (calls tr0)) (to_start testing cs) = map fst (calls tr0)
             \<and> (r0 = Inr None \<longrightarrow>
                   map fst (calls tr0) = to_start testing cs \<and> (\<forall>x \<in> set (calls tr0). snd x = Inr 0))
             \<and> (r0 \<noteq> Inr None \<longrightarrow>
                   calls tr0 \<noteq> [] \<and> (\<forall>x \<in> set (butlast (calls tr0)). snd x = Inr 0)
                   \<and> snd (last (calls tr0)) \<noteq> Inr 0
                   \<and> r0 = (case snd (last (calls tr0)) of Inl e \<Rightarrow> Inl e | Inr rc \<Rightarrow> Inr (Some rc)))"
  proof (intro allI impI)
    fix testing cs w0 r0 tr0 w0'
    assume r: "run_commands env call testing cs w0 = (r0, tr0, w0')"
    show "take (length (calls tr0)) (to_start testing cs) = map fst (calls tr0)
             \<and> (r0 = Inr None \<longrightarrow>
                   map fst (calls tr0) = to_start testing cs \<and> (\<forall>x \<in> set (calls tr0). snd x = Inr 0))
             \<and> (r0 \<noteq> Inr None \<longrightarrow>
                   calls tr0 \<noteq> [] \<and> (\<forall>x \<in> set (butlast (calls tr0)). snd x = Inr 0)
                   \<and> snd (last (calls tr0)) \<noteq> Inr 0
                   \<and> r0 = (case snd (last (calls tr0)) of Inl e \<Rightarrow> Inl e | Inr rc \<Rightarrow> Inr (Some rc)))"
      by (rule run_commands_calls[OF r])
  qed
  have E: "\<forall>c1 c2 w0 w1. call (command c1) False w0 = (Inr 2, w1) \<longrightarrow>
             (\<exists>tr1. run_commands env call False [c1, c2] w0 = (Inr (Some 2), tr1, w1)
                    \<and> calls tr1 = [(command c1, Inr 2)])"
  proof (intro allI impI)
    fix c1 c2 :: Command and w0 w1
    assume "call (command c1) False w0 = (Inr 2, w1)"
    from run_commands_two_first_fails[where call=call and ?c1.0=c1 and w=w0 and ?w1.0=w1
        and env=env and ?c2.0=c2, OF this]
    show "\<exists>tr1. run_commands env call False [c1, c2] w0 = (Inr (Some 2), tr1, w1)
                    \<and> calls tr1 = [(command c1, Inr 2)]"
      by (simp add: calls_append calls_step_out del: run_commands.simps)
  qed
  note B1 = B[THEN conjunct1] and B2 = B[THEN conjunct2, THEN conjunct1]
    and B3 = B[THEN conjunct2, THEN conjunct2]
  show ?thesis
    by (rule conjI[OF A conjI[OF B1 conjI[OF B2 conjI[OF B3 conjI[OF C conjI[OF D E]]]]]])
qed


theorem main_first_failure_witness:
  "fst (main sample_env (\<lambda>argv t w. (Inr (if w = 0 then 2 else 0), Suc w))
          [BotIdArg ''main-tests''] (0 :: nat)) = Inr (Some 2)
   \<and> length (calls (fst (snd (main sample_env (\<lambda>argv t w. (Inr (if w = 0 then 2 else 0), Suc w))
          [BotIdArg ''main-tests''] (0 :: nat))))) = 1"
proof -
  let ?K = "\<lambda>(argv :: string list) (t :: bool) (w :: nat). (Inr (if w = 0 then 2 else 0) :: py_error + int, Suc w)"
  let ?opts = "default_options\<lparr>opt_bot_id := Some ''main-tests''\<rparr>"
  let ?c = "B ''main-tests'' 0 (Some (T 1 (Some 2))) None"
  let ?h = "[[''--extract-build''], [''ui'', ''unit''], [''--upload-to-flakiness-server'']]"
  let ?M = "main sample_env ?K [BotIdArg ''main-tests''] 0"
  have e: "map_of bot_table_view ''main-tests'' = Some (view_bot ?h ?c)"
    by (simp add: bot_table_view_def view_bot_def view_test_def B_def T_def)
  from GetBotStepMap_entry[OF e] obtain bm h cfg where
    g: "GetBotStepMap [] = Inr (bm, h)" and m: "map_of bm ''main-tests'' = Some cfg"
    and v: "view_bot h cfg = view_bot ?h ?c" by blast
  have p: "parse_args sample_env [BotIdArg ''main-tests''] default_options [] = Inr (?opts, [])"
    by simp
  have b: "get_bot_id ?opts = Inr (JStr ''main-tests'')" by (simp add: get_bot_id_def)
  have t: "truthy (JStr ''main-tests'')" by simp
  have r: "resolve sample_env bm (JStr ''main-tests'') = Inr (Some cfg, [])"
    using m by (simp add: resolve_def)
  have m0: "?M = (fst ?M, fst (snd ?M), snd (snd ?M))" by (simp only: prod.collapse)
  have gc: "GetCommands sample_env ?opts cfg h = GetCommands sample_env ?opts ?c ?h"
    by (rule GetCommands_view[OF v])
  have "length (GetCommands sample_env ?opts ?c ?h) = 2"
    by (simp add: GetCommands_def B_def T_def Let_def)
  with gc have "length (GetCommands sample_env ?opts cfg h) = 2" by simp
  then obtain c1 c2 where two: "GetCommands sample_env ?opts cfg h = [c1, c2]"
    by (auto simp: length_Suc_conv numeral_2_eq_2)
  have tst: "TESTING ?opts = False" by (simp add: default_options_def)
  have cl: "?K (if TESTING ?opts then the (testing_cmd c1) else command c1) (TESTING ?opts) 0
              = (Inr 2, 1)" by simp
  note th = main_first_failure[OF p b t g r m0, THEN conjunct2, THEN conjunct2, THEN conjunct2,
      THEN conjunct2, THEN conjunct1, rule_format, of c1 c2 1]
  from th two cl have "fst ?M = Inr (Some 2)"
    and "calls (fst (snd ?M)) = [(if TESTING ?opts then the (testing_cmd c1) else command c1, Inr 2)]"
    by blast+
  then show ?thesis by simp
qed

lemma run_commands_trace:
  assumes "\<forall>c\<in>set cs. (\<exists>s. step_name c = Some s \<and> s \<noteq> []) \<and> (\<exists>tc. testing_cmd c = Some tc \<and> tc \<noteq> [])"
    and "run_commands env call testing cs w = (r, tr, w')"
  shows "named_steps tr = map (\<lambda>c. the (step_name c)) (take (length (calls tr)) cs)
       \<and> printed_commands tr = map (\<lambda>c. CommandToString env (command c)) (take (length (calls tr)) cs)
       \<and> map fst (calls tr)
           = map (\<lambda>c. if testing then the (testing_cmd c) else command c) (take (length (calls tr)) cs)
       \<and> (cs \<noteq> [] \<longrightarrow> 0 < length (calls tr))
       \<and> (r = Inr None \<longrightarrow> length (calls tr) = length cs)"
  using assms
proof (induction cs arbitrary: w r tr w')
  case Nil
  then show ?case by auto
next
  case (Cons c cs)
  from Cons.prems(1) obtain s tc where c: "step_name c = Some s" "s \<noteq> []" "testing_cmd c = Some tc" "tc \<noteq> []"
    by auto
  have so: "named_steps (step_out env c) = [s]" "printed_commands (step_out env c) = [CommandToString env (command c)]"
    "calls (step_out env c) = []"
    using c by (simp_all add: step_out_def)
  define argv where "argv = (if testing then the (testing_cmd c) else command c)"
  obtain res w1 where cl: "call argv testing w = (res, w1)"
    by (cases "call argv testing w") auto
  have IH: "\<And>w r tr w'. run_commands env call testing cs w = (r, tr, w') \<Longrightarrow>
     named_steps tr = map (\<lambda>c. the (step_name c)) (take (length (calls tr)) cs)
       \<and> printed_commands tr = map (\<lambda>c. CommandToString env (command c)) (take (length (calls tr)) cs)
       \<and> map fst (calls tr)
           = map (\<lambda>c. if testing then the (testing_cmd c) else command c) (take (length (calls tr)) cs)
       \<and> (cs \<noteq> [] \<longrightarrow> 0 < length (calls tr))
       \<and> (r = Inr None \<longrightarrow> length (calls tr) = length cs)"
    using Cons.IH Cons.prems(1) by simp
  show ?case
  proof (cases res)
    case (Inl e)
    with Cons.prems(2) c cl have "tr = step_out env c @ [Call argv testing (Inl e)]" "r = Inl e"
      by (auto simp: run_commands_Cons argv_def Let_def simp del: run_commands.simps)
    then show ?thesis using c
      by (simp add: named_steps_append printed_commands_append calls_append so argv_def)
  next
    case (Inr rc)
    show ?thesis
    proof (cases "rc = 0")
      case False
      with Cons.prems(2) c cl Inr have "tr = step_out env c @ [Call argv testing (Inr rc)]"
        "r = Inr (Some rc)"
        by (auto simp: run_commands_Cons argv_def Let_def simp del: run_commands.simps)
      then show ?thesis using c
        by (simp add: named_steps_append printed_commands_append calls_append so argv_def)
    next
      case True
      obtain r1 tr1 w2 where rec: "run_commands env call testing cs w1 = (r1, tr1, w2)"
        by (cases "run_commands env call testing cs w1") auto
      from Cons.prems(2) c cl Inr True rec
      have "tr = step_out env c @ Call argv testing (Inr 0) # tr1" "r = r1"
        by (auto simp: run_commands_Cons argv_def Let_def simp del: run_commands.simps)
      then show ?thesis using IH[OF rec] c
        by (simp add: named_steps_append printed_commands_append calls_append so argv_def)
    qed
  qed
qed

text \<open>
  Claim C10. Every command of \<open>GetCommands\<close> is named \<open>Host steps\<close> or
  \<open>Run tests\<close> and has a non-empty \<open>testing_cmd\<close>. So when the loop runs these
  commands, in either mode, and when \<open>main\<close> runs them after resolving the bot id,
  the step markers written are the names of the commands started, in order, one for
  each command line printed and each child started: no command is skipped. The first
  command is always started, and all of them are when the result is \<open>None\<close>.
\<close>

theorem GetCommands_named_and_testable:
  "(\<forall>c \<in> set (GetCommands env opts cfg h).
      (step_name c = Some ''Host steps'' \<or> step_name c = Some ''Run tests'')
      \<and> (\<exists>tc. testing_cmd c = Some tc \<and> tc \<noteq> []))
   \<and> (\<forall>call testing w r tr w'.
        run_commands env call testing (GetCommands env opts cfg h) w = (r, tr, (w' :: 'w)) \<longrightarrow>
          named_steps tr
            = map (\<lambda>c. the (step_name c)) (take (length (calls tr)) (GetCommands env opts cfg h))
          \<and> printed_commands tr
            = map (\<lambda>c. CommandToString env (command c))
                (take (length (calls tr)) (GetCommands env opts cfg h))
          \<and> map fst (calls tr)
            = map (\<lambda>c. if testing then the (testing_cmd c) else command c)
                (take (length (calls tr)) (GetCommands env opts cfg h))
          \<and> (GetCommands env opts cfg h \<noteq> [] \<longrightarrow> 0 < length (calls tr))
          \<and> (r = Inr None \<longrightarrow> length (calls tr) = length (GetCommands env opts cfg h)))
   \<and> (\<forall>call argv w bid bm out res tr w'.
        parse_args env argv default_options [] = Inr (opts, [])
        \<and> get_bot_id opts = Inr bid \<and> truthy bid
        \<and> GetBotStepMap [] = Inr (bm, h)
        \<and> resolve env bm bid = Inr (Some cfg, out)
        \<and> main env call argv w = (res, tr, (w' :: 'w)) \<longrightarrow>
          named_steps tr
            = map (\<lambda>c. the (step_name c)) (take (length (calls tr)) (GetCommands env opts cfg h))
          \<and> printed_commands tr
            = map (\<lambda>c. CommandToString env (command c))
                (take (length (calls tr)) (GetCommands env opts cfg h))
          \<and> map fst (calls tr)
            = map (\<lambda>c. if TESTING opts then the (testing_cmd c) else command c)
                (take (length (calls tr)) (GetCommands env opts cfg h))
          \<and> (GetCommands env opts cfg h \<noteq> [] \<longrightarrow> 0 < length (calls tr))
          \<and> (res = Inr None \<longrightarrow> length (calls tr) = length (GetCommands env opts cfg h)))"
proof -
  let ?cs = "GetCommands env opts cfg h"
  have a: "\<forall>c\<in>set ?cs.
     (\<exists>s. step_name c = Some s \<and> s \<noteq> []) \<and> (\<exists>tc. testing_cmd c = Some tc \<and> tc \<noteq> [])"
    using GetCommands_fields[of env opts cfg h] by auto
  have L: "\<forall>call testing w r tr w'.
        run_commands env call testing ?cs w = (r, tr, (w' :: 'w)) \<longrightarrow>
          named_steps tr = map (\<lambda>c. the (step_name c)) (take (length (calls tr)) ?cs)
          \<and> printed_commands tr
            = map (\<lambda>c. CommandToString env (command c)) (take (length (calls tr)) ?cs)
          \<and> map fst (calls tr)
            = map (\<lambda>c. if testing then the (testing_cmd c) else command c)
                (take (length (calls tr)) ?cs)
          \<and> (?cs \<noteq> [] \<longrightarrow> 0 < length (calls tr))
          \<and> (r = Inr None \<longrightarrow> length (calls tr) = length ?cs)"
  proof (intro allI impI)
    fix call :: "'w subprocess" and testing w r tr w'
    assume run: "run_commands env call testing ?cs w = (r, tr, w')"
    show "named_steps tr = map (\<lambda>c. the (step_name c)) (take (length (calls tr)) ?cs)
          \<and> printed_commands tr
            = map (\<lambda>c. CommandToString env (command c)) (take (length (calls tr)) ?cs)
          \<and> map fst (calls tr)
            = map (\<lambda>c. if testing then the (testing_cmd c) else command c)
                (take (length (calls tr)) ?cs)
          \<and> (?cs \<noteq> [] \<longrightarrow> 0 < length (calls tr))
          \<and> (r = Inr None \<longrightarrow> length (calls tr) = length ?cs)"
      by (rule run_commands_trace[OF a run])
  qed
  have M: "\<forall>call argv w bid bm out res tr w'.
        parse_args env argv default_options [] = Inr (opts, [])
        \<and> get_bot_id opts = Inr bid \<and> truthy bid
        \<and> GetBotStepMap [] = Inr (bm, h)
        \<and> resolve env bm bid = Inr (Some cfg, out)
        \<and> main env call argv w = (res, tr, (w' :: 'w)) \<longrightarrow>
          named_steps tr = map (\<lambda>c. the (step_name c)) (take (length (calls tr)) ?cs)
          \<and> printed_commands tr
            = map (\<lambda>c. CommandToString env (command c)) (take (length (calls tr)) ?cs)
          \<and> map fst (calls tr)
            = map (\<lambda>c. if TESTING opts then the (testing_cmd c) else command c)
                (take (length (calls tr)) ?cs)
          \<and> (?cs \<noteq> [] \<longrightarrow> 0 < length (calls tr))
          \<and> (res = Inr None \<longrightarrow> length (calls tr) = length ?cs)"
  proof (intro allI impI)
    fix call :: "'w subprocess" and argv w bid bm out res tr w'
    assume h: "parse_args env argv default_options [] = Inr (opts, [])
        \<and> get_bot_id opts = Inr bid \<and> truthy bid
        \<and> GetBotStepMap [] = Inr (bm, h)
        \<and> resolve env bm bid = Inr (Some cfg, out)
        \<and> main env call argv w = (res, tr, w')"
    then have h1: "parse_args env argv default_options [] = Inr (opts, [])"
      and h2: "get_bot_id opts = Inr bid" and h3: "truthy bid"
      and h4: "GetBotStepMap [] = Inr (bm, h)"
      and h5: "resolve env bm bid = Inr (Some cfg, out)"
      and h6: "main env call argv w = (res, tr, w')" by simp_all
    from main_trace[OF h1 h2 h3 h4 h5 h6] obtain pre tr1 where
      tr: "tr = pre @ tr1" and pre: "calls pre = []" "named_steps pre = []"
        "printed_commands pre = []"
      and run: "run_commands env call (TESTING opts) ?cs w = (res, tr1, w')"
      by blast
    have eqs: "calls tr = calls tr1" "named_steps tr = named_steps tr1"
      "printed_commands tr = printed_commands tr1"
      using tr pre by (simp_all add: calls_append named_steps_append printed_commands_append)
    show "named_steps tr = map (\<lambda>c. the (step_name c)) (take (length (calls tr)) ?cs)
          \<and> printed_commands tr
            = map (\<lambda>c. CommandToString env (command c)) (take (length (calls tr)) ?cs)
          \<and> map fst (calls tr)
            = map (\<lambda>c. if TESTING opts then the (testing_cmd c) else command c)
                (take (length (calls tr)) ?cs)
          \<and> (?cs \<noteq> [] \<longrightarrow> 0 < length (calls tr))
          \<and> (res = Inr None \<longrightarrow> length (calls tr) = length ?cs)"
      unfolding eqs by (rule run_commands_trace[OF a run])
  qed
  show ?thesis
    by (rule conjI[OF GetCommands_fields conjI[OF L M]])
qed

theorem GetCommands_named_and_testable_witness:
  "named_steps (fst (snd (main sample_env (\<lambda>argv t w. (Inr 0, Suc w))
        [BotIdArg ''asan-builder-tests'', TestingFlag] (0 :: nat))))
     = [''Host steps'', ''Run tests'']
   \<and> length (printed_commands (fst (snd (main sample_env (\<lambda>argv t w. (Inr 0, Suc w))
        [BotIdArg ''asan-builder-tests'', TestingFlag] (0 :: nat))))) = 2
   \<and> length (calls (fst (snd (main sample_env (\<lambda>argv t w. (Inr 0, Suc w))
        [BotIdArg ''asan-builder-tests'', TestingFlag] (0 :: nat))))) = 2"
proof -
  let ?K = "\<lambda>(argv :: string list) (t :: bool) (w :: nat). (Inr 0 :: py_error + int, Suc w)"
  let ?opts = "default_options\<lparr>opt_bot_id := Some ''asan-builder-tests'', TESTING := True\<rparr>"
  let ?c = "B ''asan-builder-tests'' 0 (Some (T 1 (Some 2))) (Some [(''extra_gyp_defines'', ''asan=1'')])"
  let ?h = "[[''--compile'', ''--update-clang''], [''ui'', ''unit''], [''--asan'']]"
  let ?M = "main sample_env ?K [BotIdArg ''asan-builder-tests'', TestingFlag] 0"
  have e: "map_of bot_table_view ''asan-builder-tests'' = Some (view_bot ?h ?c)"
    by (simp add: bot_table_view_def view_bot_def view_test_def B_def T_def)
  from GetBotStepMap_entry[OF e] obtain bm h cfg where
    g: "GetBotStepMap [] = Inr (bm, h)" and m: "map_of bm ''asan-builder-tests'' = Some cfg"
    and v: "view_bot h cfg = view_bot ?h ?c" by blast
  have p: "parse_args sample_env [BotIdArg ''asan-builder-tests'', TestingFlag] default_options []
             = Inr (?opts, [])"
    by simp
  have b: "get_bot_id ?opts = Inr (JStr ''asan-builder-tests'')" by (simp add: get_bot_id_def)
  have t: "truthy (JStr ''asan-builder-tests'')" by simp
  have r: "resolve sample_env bm (JStr ''asan-builder-tests'') = Inr (Some cfg, [])"
    using m by (simp add: resolve_def)
  have m0: "?M = (fst ?M, fst (snd ?M), snd (snd ?M))" by (simp only: prod.collapse)
  have gc: "GetCommands sample_env ?opts cfg h = GetCommands sample_env ?opts ?c ?h"
    by (rule GetCommands_view[OF v])
  have names: "map step_name (GetCommands sample_env ?opts ?c ?h)
                 = [Some ''Host steps'', Some ''Run tests'']"
    by (simp add: GetCommands_def B_def T_def Let_def)
  then have len: "length (GetCommands sample_env ?opts ?c ?h) = 2"
    by (metis length_map length_Cons list.size(3) numeral_2_eq_2)
  then obtain c1 c2 where two: "GetCommands sample_env ?opts ?c ?h = [c1, c2]"
    by (auto simp: length_Suc_conv numeral_2_eq_2)
  from names two have sn: "step_name c1 = Some ''Host steps''" "step_name c2 = Some ''Run tests''"
    by simp_all
  from GetCommands_fields[of sample_env ?opts ?c ?h] two
  obtain t1 t2 where tc: "testing_cmd c1 = Some t1" "t1 \<noteq> []" "testing_cmd c2 = Some t2" "t2 \<noteq> []"
    by auto
  have tst: "TESTING ?opts = True" by simp
  have run: "fst (run_commands sample_env ?K True [c1, c2] 0) = Inr None"
    using tc by (simp add: run_commands_Cons Let_def del: run_commands.simps(2))
  obtain r1 tr1 w1 where rr: "run_commands sample_env ?K (TESTING ?opts)
       (GetCommands sample_env ?opts cfg h) 0 = (r1, tr1, w1)"
    by (cases "run_commands sample_env ?K (TESTING ?opts) (GetCommands sample_env ?opts cfg h) 0") auto
  with run gc two tst have r1: "r1 = Inr None" by simp
  from main_returns_loop_result[OF p b t g r rr] r1 have res: "fst ?M = Inr None" by simp
  note th = GetCommands_named_and_testable[of sample_env ?opts cfg h, THEN conjunct2,
      THEN conjunct2, rule_format, of "[BotIdArg ''asan-builder-tests'', TestingFlag]"
      "JStr ''asan-builder-tests''" bm "[]" ?K 0 "fst ?M" "fst (snd ?M)" "snd (snd ?M)"]
  from th p b t g r m0 res gc two sn
  have "length (calls (fst (snd ?M))) = 2"
    and "named_steps (fst (snd ?M)) = map (\<lambda>c. the (step_name c)) (take (length (calls (fst (snd ?M)))) [c1, c2])"
    and "printed_commands (fst (snd ?M)) = map (\<lambda>c. CommandToString sample_env (command c)) (take (length (calls (fst (snd ?M)))) [c1, c2])"
    by simp_all
  with sn show ?thesis by simp
qed


subsection \<open>Bot resolution\<close>

lemma take_length_eq_iff: "take (length x) ys = x \<longleftrightarrow> (\<exists>q. ys = x @ q)"
  by (metis append_eq_conv_conj append_take_drop_id)

lemma str_contains_iff: "str_contains x s \<longleftrightarrow> (\<exists>p q. s = p @ x @ q)"
proof (induction s)
  case Nil
  then show ?case by auto
next
  case (Cons c s)
  have "(\<exists>p q. c # s = p @ x @ q) \<longleftrightarrow> (\<exists>q. c # s = x @ q) \<or> (\<exists>p q. s = p @ x @ q)"
  proof
    assume "\<exists>p q. c # s = p @ x @ q"
    then obtain p q where pq: "c # s = p @ x @ q" by blast
    show "(\<exists>q. c # s = x @ q) \<or> (\<exists>p q. s = p @ x @ q)"
    proof (cases p)
      case Nil
      with pq show ?thesis by auto
    next
      case (Cons a p')
      with pq have "s = p' @ x @ q" by simp
      then show ?thesis by blast
    qed
  next
    assume "(\<exists>q. c # s = x @ q) \<or> (\<exists>p q. s = p @ x @ q)"
    then show "\<exists>p q. c # s = p @ x @ q"
    proof
      assume "\<exists>q. c # s = x @ q"
      then obtain q where "c # s = [] @ x @ q" by auto
      then show ?thesis by blast
    next
      assume "\<exists>p q. s = p @ x @ q"
      then obtain p q where "c # s = (c # p) @ x @ q" by auto
      then show ?thesis by blast
    qed
  qed
  then show ?case using Cons.IH by (simp add: take_length_eq_iff del: take_Suc_Cons)
qed

lemma max_by_len_from_mem: "max_by_len_from m xs \<in> insert m (set xs)"
  by (induction xs arbitrary: m) (auto split: if_splits)

lemma max_by_len_from_ge: "y \<in> insert m (set xs) \<Longrightarrow> length y \<le> length (max_by_len_from m xs)"
proof (induction xs arbitrary: m y)
  case Nil
  then show ?case by simp
next
  case (Cons x xs)
  show ?case
  proof (cases "length m < length x")
    case True
    have a: "length x \<le> length (max_by_len_from x xs)" by (rule Cons.IH) simp
    from Cons.prems have "y = m \<or> y \<in> insert x (set xs)" by auto
    then show ?thesis
    proof
      assume "y = m"
      with True a show ?thesis by simp
    next
      assume "y \<in> insert x (set xs)"
      then have "length y \<le> length (max_by_len_from x xs)" by (rule Cons.IH)
      with True show ?thesis by simp
    qed
  next
    case False
    have a: "length m \<le> length (max_by_len_from m xs)" by (rule Cons.IH) simp
    from Cons.prems have "y = x \<or> y \<in> insert m (set xs)" by auto
    then show ?thesis
    proof
      assume "y = x"
      with False a show ?thesis by simp
    next
      assume "y \<in> insert m (set xs)"
      then have "length y \<le> length (max_by_len_from m xs)" by (rule Cons.IH)
      with False show ?thesis by simp
    qed
  qed
qed

lemma max_by_len_mem: "xs \<noteq> [] \<Longrightarrow> max_by_len xs \<in> set xs"
  using max_by_len_from_mem[of "hd xs" "tl xs"] by (cases xs) (auto simp: max_by_len_def)

lemma max_by_len_ge: "y \<in> set xs \<Longrightarrow> length y \<le> length (max_by_len xs)"
  using max_by_len_from_ge[of y "hd xs" "tl xs"] by (cases xs) (auto simp: max_by_len_def)

text \<open>
  Claim C1. When the bot id is a key of the table, the configuration stored under it
  is returned. Otherwise, when some key of the table occurs in the bot id as a
  contiguous substring, the configuration returned is the one stored under such a
  key, and no key that occurs in the bot id is longer than it. The order in which the
  dict hands out its keys is arbitrary.
\<close>

theorem resolve_exact_then_longest_substring:
  assumes keys: "set (iterkeys env (map fst bm)) = set (map fst bm)"
  shows "(\<forall>c. map_of bm s = Some c \<longrightarrow> resolve env bm (JStr s) = Inr (Some c, []))
       \<and> (map_of bm s = None \<longrightarrow> (\<exists>k \<in> set (map fst bm). \<exists>p q. s = p @ k @ q) \<longrightarrow>
            (\<exists>k c. resolve env bm (JStr s) = Inr (Some c, [PrintSubstringMatch k])
                  \<and> map_of bm k = Some c
                  \<and> (\<exists>p q. s = p @ k @ q)
                  \<and> (\<forall>k' \<in> set (map fst bm). (\<exists>p q. s = p @ k' @ q) \<longrightarrow> length k' \<le> length k)))"
proof (intro conjI allI impI)
  fix c assume "map_of bm s = Some c"
  then show "resolve env bm (JStr s) = Inr (Some c, [])" by (simp add: resolve_def)
next
  assume none: "map_of bm s = None" and ex: "\<exists>k \<in> set (map fst bm). \<exists>p q. s = p @ k @ q"
  define ms where "ms = filter (\<lambda>x. str_contains x s) (iterkeys env (map fst bm))"
  have ms_set: "set ms = {k \<in> set (map fst bm). \<exists>p q. s = p @ k @ q}"
    using keys by (auto simp: ms_def str_contains_iff)
  from ex obtain k0 p0 q0 where "k0 \<in> set (map fst bm)" "s = p0 @ k0 @ q0" by blast
  then have "k0 \<in> set ms" unfolding ms_set by blast
  then have ne: "ms \<noteq> []" by auto
  define k where "k = max_by_len ms"
  have kin: "k \<in> set ms" unfolding k_def using ne by (rule max_by_len_mem)
  then have "k \<in> fst ` set bm" using ms_set by auto
  then obtain c where c: "map_of bm k = Some c"
    by (metis domD dom_map_of_conv_image_fst)
  have res: "resolve env bm (JStr s) = Inr (Some c, [PrintSubstringMatch k])"
    using none ne c by (simp add: resolve_def Let_def ms_def[symmetric] k_def[symmetric])
  have "\<forall>k' \<in> set (map fst bm). (\<exists>p q. s = p @ k' @ q) \<longrightarrow> length k' \<le> length k"
    using ms_set max_by_len_ge[of _ ms] unfolding k_def by blast
  with res c kin ms_set
  show "\<exists>k c. resolve env bm (JStr s) = Inr (Some c, [PrintSubstringMatch k])
                  \<and> map_of bm k = Some c
                  \<and> (\<exists>p q. s = p @ k @ q)
                  \<and> (\<forall>k' \<in> set (map fst bm). (\<exists>p q. s = p @ k' @ q) \<longrightarrow> length k' \<le> length k)"
    by blast
qed


theorem resolve_exact_then_longest_substring_witness:
  "resolve sample_env
      [(''builder'', B ''builder'' 0 None None),
       (''fyi-builder-rel'', B ''fyi-builder-rel'' 1 None None)]
      (JStr ''my-fyi-builder-rel-7'')
     = Inr (Some (B ''fyi-builder-rel'' 1 None None), [PrintSubstringMatch ''fyi-builder-rel''])
   \<and> (\<exists>k c. resolve sample_env
                [(''builder'', B ''builder'' 0 None None),
                 (''fyi-builder-rel'', B ''fyi-builder-rel'' 1 None None)]
                (JStr ''my-fyi-builder-rel-7'') = Inr (Some c, [PrintSubstringMatch k])
            \<and> length ''builder'' \<le> length k)
   \<and> resolve sample_env
      [(''builder'', B ''builder'' 0 None None),
       (''fyi-builder-rel'', B ''fyi-builder-rel'' 1 None None)]
      (JStr ''builder'')
     = Inr (Some (B ''builder'' 0 None None), [])"
proof -
  let ?bm = "[(''builder'', B ''builder'' 0 None None),
              (''fyi-builder-rel'', B ''fyi-builder-rel'' 1 None None)]"
  have keys: "set (iterkeys sample_env (map fst ?bm)) = set (map fst ?bm)"
    by (simp add: sample_env_def)
  have none: "map_of ?bm ''my-fyi-builder-rel-7'' = None" by simp
  have "''my-fyi-builder-rel-7'' = ''my-fyi-'' @ ''builder'' @ ''-rel-7''" by simp
  then have sub: "\<exists>p q. ''my-fyi-builder-rel-7'' = p @ ''builder'' @ q" by blast
  then have ex: "\<exists>k \<in> set (map fst ?bm). \<exists>p q. ''my-fyi-builder-rel-7'' = p @ k @ q"
    by (intro bexI[of _ "''builder''"]) simp_all
  from resolve_exact_then_longest_substring[OF keys, of "''my-fyi-builder-rel-7''"] none ex
  obtain k c where kc: "resolve sample_env ?bm (JStr ''my-fyi-builder-rel-7'')
        = Inr (Some c, [PrintSubstringMatch k])"
    and mx: "\<forall>k' \<in> set (map fst ?bm). (\<exists>p q. ''my-fyi-builder-rel-7'' = p @ k' @ q)
               \<longrightarrow> length k' \<le> length k"
    by blast
  from mx sub have "length ''builder'' \<le> length k" by simp
  with kc have second: "\<exists>k c. resolve sample_env ?bm (JStr ''my-fyi-builder-rel-7'')
        = Inr (Some c, [PrintSubstringMatch k]) \<and> length ''builder'' \<le> length k"
    by blast
  have first: "resolve sample_env ?bm (JStr ''my-fyi-builder-rel-7'')
     = Inr (Some (B ''fyi-builder-rel'' 1 None None), [PrintSubstringMatch ''fyi-builder-rel''])"
    by (simp add: resolve_def sample_env_def max_by_len_def Let_def)
  have exact: "map_of ?bm ''builder'' = Some (B ''builder'' 0 None None)" by simp
  from resolve_exact_then_longest_substring[OF keys, of "''builder''"] exact
  have third: "resolve sample_env ?bm (JStr ''builder'') = Inr (Some (B ''builder'' 0 None None), [])"
    by blast
  from first second third show ?thesis by blast
qed

lemma substring_self: "\<exists>p q. s = p @ s @ q"
  by (rule exI[of _ "[]"], rule exI[of _ "[]"]) simp

lemma map_of_None_keys: "k \<notin> set (map fst xs) \<Longrightarrow> map_of xs k = None"
  by (simp add: map_of_eq_None_iff)

text \<open>
  Claim C5. When the bot id is a non-empty string in which no key of the table occurs
  (so it is no key either), resolution gives no configuration, and \<open>main\<close> prints
  that the configuration cannot be inferred, starts nothing and returns 1.
\<close>

theorem main_unresolved_bot_id:
  assumes "parse_args env argv default_options [] = Inr (opts, [])"
    and "get_bot_id opts = Inr (JStr s)" and "s \<noteq> []"
    and "set (iterkeys env bot_ids) = set bot_ids"
    and "\<forall>k \<in> set bot_ids. \<not> (\<exists>p q. s = p @ k @ q)"
  shows "(\<exists>bm h. GetBotStepMap [] = Inr (bm, h) \<and> map fst bm = bot_ids
             \<and> resolve env bm (JStr s) = Inr (None, []))
       \<and> main env call argv w = (Inr (Some 1), [PrintCannotInfer (JStr s)], w)"
proof -
  from GetBotStepMap_keys[of "[]"] obtain bm h where
    g: "GetBotStepMap [] = Inr (bm, h)" and k: "map fst bm = bot_ids" by blast
  from assms(5) substring_self[of s] have "s \<notin> set bot_ids" by blast
  then have none: "map_of bm s = None" using k by (simp add: map_of_None_keys)
  have "filter (\<lambda>x. str_contains x s) (iterkeys env (map fst bm)) = []"
    using assms(4,5) k by (auto simp: filter_empty_conv str_contains_iff)
  with none have r: "resolve env bm (JStr s) = Inr (None, [])"
    by (simp add: resolve_def)
  have "main env call argv w = (Inr (Some 1), [PrintCannotInfer (JStr s)], w)"
    using assms(1,2,3) g r by (simp add: main_def)
  with g k r show ?thesis by blast
qed

theorem main_unresolved_bot_id_witness:
  "main sample_env (\<lambda>argv t w. (Inr 0, Suc w)) [BotIdArg ''no-such-bot''] (0 :: nat)
     = (Inr (Some 1), [PrintCannotInfer (JStr ''no-such-bot'')], 0)"
proof -
  have p: "parse_args sample_env [BotIdArg ''no-such-bot''] default_options []
             = Inr (default_options\<lparr>opt_bot_id := Some ''no-such-bot''\<rparr>, [])"
    by simp
  have b: "get_bot_id (default_options\<lparr>opt_bot_id := Some ''no-such-bot''\<rparr>) = Inr (JStr ''no-such-bot'')"
    by (simp add: get_bot_id_def)
  have n: "''no-such-bot'' \<noteq> []" by simp
  have i: "set (iterkeys sample_env bot_ids) = set bot_ids" by (simp add: sample_env_def)
  have s: "\<forall>k \<in> set bot_ids. \<not> (\<exists>p q. ''no-such-bot'' = p @ k @ q)"
    unfolding str_contains_iff[symmetric] by (simp add: bot_ids_eq)
  show ?thesis by (rule main_unresolved_bot_id[OF p b n i s, THEN conjunct2])
qed


subsection \<open>The command line\<close>

text \<open>
  Claim C8, as amended. A value of \<open>--bot-id\<close> that is not empty is the bot id,
  whatever the factory properties are, and they are not looked at. With no
  \<open>--bot-id\<close>, or an empty one, the bot id is what the factory properties have
  under \<open>android_bot_id\<close>.
\<close>

theorem get_bot_id_precedence:
  "(\<forall>v. opt_bot_id opts = Some v \<and> v \<noteq> [] \<longrightarrow> get_bot_id opts = Inr (JStr v))
   \<and> (opt_bot_id opts = None \<or> opt_bot_id opts = Some [] \<longrightarrow>
        get_bot_id opts =
          (case factory_properties opts of
             JObj kvs \<Rightarrow> Inr (case map_of kvs ''android_bot_id'' of None \<Rightarrow> JNull | Some x \<Rightarrow> x)
           | _ \<Rightarrow> Inl AttributeError))"
  by (auto simp add: get_bot_id_def split: json.splits)

theorem get_bot_id_precedence_witness:
  "get_bot_id \<lparr>build_properties = JObj [], factory_properties = JArr [],
               opt_bot_id = Some ''main-tests'', TESTING = False\<rparr> = Inr (JStr ''main-tests'')
   \<and> get_bot_id \<lparr>build_properties = JObj [], factory_properties = JArr [],
               opt_bot_id = None, TESTING = False\<rparr> = Inl AttributeError"
  using get_bot_id_precedence[of "\<lparr>build_properties = JObj [], factory_properties = JArr [],
               opt_bot_id = Some ''main-tests'', TESTING = False\<rparr>"]
    get_bot_id_precedence[of "\<lparr>build_properties = JObj [], factory_properties = JArr [],
               opt_bot_id = None, TESTING = False\<rparr>"]
  by simp

text \<open>
  The claim as stated fails for \<open>--bot-id=\<close> with an empty value: the id of the
  factory properties is used.
\<close>

theorem empty_bot_id_flag_counterexample:
  "parse_args sample_env [BotIdArg [], FactoryProperties sample_factory_text] default_options []
     = Inr (\<lparr>build_properties = JObj [],
             factory_properties = JObj [(''android_bot_id'', JStr ''main-tests'')],
             opt_bot_id = Some [], TESTING = False\<rparr>, [])
   \<and> get_bot_id \<lparr>build_properties = JObj [],
                 factory_properties = JObj [(''android_bot_id'', JStr ''main-tests'')],
                 opt_bot_id = Some [], TESTING = False\<rparr> = Inr (JStr ''main-tests'')"
  by (simp add: sample_env_def sample_loads_def sample_factory_text_def default_options_def
        get_bot_id_def)

lemma parse_args_ValueError:
  "BuildProperties v \<in> set argv \<or> FactoryProperties v \<in> set argv \<Longrightarrow> json_loads env v = None
     \<Longrightarrow> parse_args env argv opts args = Inl ValueError"
  by (induction env argv opts args rule: parse_args.induct) (auto split: option.splits)

text \<open>
  Claim C7, as amended. When the value of a property flag is not JSON, \<open>main\<close>
  ends with the \<open>ValueError\<close> of \<open>json.loads\<close>, which \<open>optparse\<close> does not turn
  into a usage error; nothing has been printed, resolved or started by then.
\<close>

theorem main_json_decode_failure:
  assumes "BuildProperties v \<in> set argv \<or> FactoryProperties v \<in> set argv"
    and "json_loads env v = None"
  shows "main env call argv w = (Inl ValueError, [], w)"
  using parse_args_ValueError[OF assms, of default_options "[]"] by (simp add: main_def)

theorem main_json_decode_failure_witness:
  "main sample_env (\<lambda>argv t w. (Inr 0, Suc w))
     [BotIdArg ''main-tests'', FactoryProperties ''{'', TestingFlag] (0 :: nat)
     = (Inl ValueError, [], 0)"
proof -
  have a: "BuildProperties ''{'' \<in> set [BotIdArg ''main-tests'', FactoryProperties ''{'', TestingFlag]
     \<or> FactoryProperties ''{'' \<in> set [BotIdArg ''main-tests'', FactoryProperties ''{'', TestingFlag]"
    by simp
  have b: "json_loads sample_env ''{'' = None"
    by (simp add: sample_env_def sample_loads_def sample_factory_text_def)
  show ?thesis by (rule main_json_decode_failure[OF a b])
qed

text \<open>
  The claim as stated fails: the error is not the usage error of the option parser.
\<close>

theorem json_decode_failure_counterexample:
  "json_loads sample_env ''{'' = None
   \<and> main sample_env (\<lambda>argv t w. (Inr 0, Suc w)) [BuildProperties ''{''] (0 :: nat)
       = (Inl ValueError, [], 0)"
  by (simp add: main_def sample_env_def sample_loads_def sample_factory_text_def)


end
